theory Spec2Isabelle
  imports Main "HOL-Library.Sublist" "HOL-Library.Multiset" "HOL-Library.Word"
begin

section \<open>Data model\<close>

text \<open>
  The program is one Streamlit script, \<^verbatim>\<open>app.py\<close>. An analysis is the dictionary that
  \<^verbatim>\<open>json.loads\<close> builds from the scoring reply; the response schema of the request
  fixes the type of each of its seven values, and the script reads every one of them with
  \<^verbatim>\<open>dict.get\<close> and a default, so a key may be absent. A field is \<open>None\<close> when its key
  is absent. The score is an integer, as the data model of the specification has it (the
  schema asks for a number).
\<close>

record analysis =
  name :: "string option"
  email :: "string option"
  phone :: "string option"
  score :: "int option"
  justification :: "string option"
  location :: "string option"
  matching_keywords :: "string list option"

text \<open>An element of \<^verbatim>\<open>st.session_state.results\<close>:
  \<^verbatim>\<open>{"filename": file.name, "analysis": analysis}\<close>.\<close>

record screening_result =
  filename :: string
  analysis :: analysis

text \<open>\<^verbatim>\<open>d.get(key, default)\<close>, on the optional field that stands for the key.\<close>

definition get :: "'a option \<Rightarrow> 'a \<Rightarrow> 'a" where
  "get v dflt = (case v of None \<Rightarrow> dflt | Some x \<Rightarrow> x)"

text \<open>A cell of the export table and a row of it: the dictionary appended to
  \<^verbatim>\<open>export_data\<close>, with its keys in insertion order.\<close>

datatype cell = Str string | Num int

type_synonym export_row = "(string \<times> cell) list"

section \<open>Python built-ins used by the view\<close>

text \<open>\<^verbatim>\<open>needle in haystack\<close> on strings: the needle occurs as a contiguous run.\<close>

fun str_in :: "string \<Rightarrow> string \<Rightarrow> bool" where
  "str_in needle [] = (needle = [])"
| "str_in needle (c # cs) = (prefix needle (c # cs) \<or> str_in needle cs)"

text \<open>\<^verbatim>\<open>sorted(xs, key=key, reverse=reverse)\<close>. The sort is stable; with
  \<^verbatim>\<open>reverse=True\<close> the list is reversed, sorted stably in ascending order and
  reversed again, which is how the interpreter keeps equal keys in their original order.\<close>

definition sorted_py :: "('a \<Rightarrow> int) \<Rightarrow> bool \<Rightarrow> 'a list \<Rightarrow> 'a list" where
  "sorted_py key reverse xs =
     (if reverse then rev (sort_key key (rev xs)) else sort_key key xs)"

text \<open>\<^verbatim>\<open>str.lower\<close> is a parameter \<open>lower\<close> of the functions that call it. On ASCII
  text it is the following function, which the concrete evaluations use.\<close>

definition ascii_lower_char :: "char \<Rightarrow> char" where
  "ascii_lower_char c =
     (case map_of (zip ''ABCDEFGHIJKLMNOPQRSTUVWXYZ'' ''abcdefghijklmnopqrstuvwxyz'') c of
        None \<Rightarrow> c
      | Some l \<Rightarrow> l)"

definition ascii_lower :: "string \<Rightarrow> string" where
  "ascii_lower s = map ascii_lower_char s"

section \<open>Filtering, sorting and export (lines 179 to 208)\<close>

text \<open>
  \<^verbatim>\<open>
  filtered_results = st.session_state.results
  if target_location:
      filtered_results = [result for result in filtered_results
          if target_location.lower() in result['analysis'].get('location', '').lower()]
  filtered_results = [result for result in filtered_results
      if result['analysis'].get('score', 0) >= min_score]
  \<close>
\<close>

definition filter_results ::
  "(string \<Rightarrow> string) \<Rightarrow> string \<Rightarrow> int \<Rightarrow> screening_result list \<Rightarrow> screening_result list" where
  "filter_results lower target_location min_score session_results =
     (let filtered_results = session_results;
          filtered_results =
            (if target_location \<noteq> [] then
               [result \<leftarrow> filtered_results.
                  str_in (lower target_location) (lower (get (location (analysis result)) ''''))]
             else filtered_results);
          filtered_results =
            [result \<leftarrow> filtered_results. get (score (analysis result)) 0 \<ge> min_score]
      in filtered_results)"

text \<open>
  \<^verbatim>\<open>sorted_results = sorted(filtered_results,
      key=lambda x: x['analysis'].get('score', 0), reverse=True)\<close>
\<close>

definition sorted_results :: "screening_result list \<Rightarrow> screening_result list" where
  "sorted_results filtered_results =
     sorted_py (\<lambda>x. get (score (analysis x)) 0) True filtered_results"

text \<open>The body of the export loop builds one dictionary per result; the loop appends it.\<close>

definition export_row_of :: "screening_result \<Rightarrow> export_row" where
  "export_row_of result =
     (let a = analysis result in
      [(''Name'', Str (get (name a) ''N/A'')),
       (''Email'', Str (get (email a) ''N/A'')),
       (''Phone'', Str (get (phone a) ''N/A'')),
       (''Score'', Num (get (score a) 0)),
       (''Location'', Str (get (location a) ''N/A'')),
       (''Filename'', Str (filename result))])"

definition export_data :: "screening_result list \<Rightarrow> export_row list" where
  "export_data displayed =
     foldl (\<lambda>rows result. rows @ [export_row_of result]) [] displayed"

section \<open>Uploaded files, libraries and the external service\<close>

text \<open>An uploaded file: \<^verbatim>\<open>uploaded_file.name\<close>, \<^verbatim>\<open>uploaded_file.type\<close> and the
  bytes that \<^verbatim>\<open>read()\<close> and \<^verbatim>\<open>getvalue()\<close> return.\<close>

type_synonym bytes = "8 word list"

record uploaded_file =
  file_name :: string
  file_type :: string
  file_bytes :: bytes

text \<open>An exception is the text \<^verbatim>\<open>str(e)\<close> that the handlers print.\<close>

type_synonym exn = string

text \<open>The two requests the script sends with \<^verbatim>\<open>model.generate_content\<close>. The prompts and
  the generation configuration are constants of the script; a request is given by what varies:
  the MIME type and bytes of an image, or the job description and the resume text.\<close>

datatype request =
    Ocr_request string bytes
  | Score_request string string

fun is_score_request :: "request \<Rightarrow> bool" where
  "is_score_request (Score_request jd text) = True"
| "is_score_request (Ocr_request mime img) = False"

text \<open>
  What the script calls and does not define. \<open>Inl e\<close> is a raised exception.
  \<^item> \<open>str_lower\<close>: \<^verbatim>\<open>str.lower\<close>;
  \<^item> \<open>fitz_open\<close>: \<^verbatim>\<open>fitz.open(stream=..., filetype="pdf")\<close>, giving for each page what
    \<^verbatim>\<open>page.get_text()\<close> returns or raises;
  \<^item> \<open>docx_Document\<close>: \<^verbatim>\<open>docx.Document(io.BytesIO(...))\<close>, giving \<^verbatim>\<open>para.text\<close> of every
    paragraph of \<^verbatim>\<open>doc.paragraphs\<close>;
  \<^item> \<open>decode_utf8\<close>: \<^verbatim>\<open>bytes.decode("utf-8")\<close>;
  \<^item> \<open>json_loads\<close>: \<^verbatim>\<open>json.loads\<close> on a scoring reply;
  \<^item> \<open>generate_content\<close>: the external service. It answers a request in a state \<open>'w\<close> of
    the outside world with \<^verbatim>\<open>response.text\<close> or an exception, and a new state, so that
    two equal requests may be answered differently.
\<close>

record 'w runtime =
  str_lower :: "string \<Rightarrow> string"
  fitz_open :: "bytes \<Rightarrow> exn + (exn + string) list"
  docx_Document :: "bytes \<Rightarrow> exn + string list"
  decode_utf8 :: "bytes \<Rightarrow> exn + string"
  json_loads :: "string \<Rightarrow> exn + analysis"
  generate_content :: "'w \<Rightarrow> request \<Rightarrow> (exn + string) \<times> 'w"

section \<open>The page and the state of a script run\<close>

text \<open>The elements a run writes to the page, in the order of the calls. Pictographs of the
  literal texts are left out; a download button carries the table that is written to the sheet.\<close>

datatype element =
    St_title string
  | St_markdown string
  | St_divider
  | St_subheader string
  | St_info string
  | St_success string
  | St_warning string
  | St_error string
  | St_spinner string
  | St_text_area string
  | St_file_uploader string
  | St_button string
  | St_text_input string
  | St_number_input string
  | St_download_button "export_row list"
  | St_metric string string

fun is_widget :: "element \<Rightarrow> bool" where
  "is_widget (St_text_area l) = True"
| "is_widget (St_file_uploader l) = True"
| "is_widget (St_button l) = True"
| "is_widget (St_text_input l) = True"
| "is_widget (St_number_input l) = True"
| "is_widget (St_download_button t) = True"
| "is_widget e = False"

text \<open>The state a run works on: the outside world, the log of the requests sent so far, the page
  and \<^verbatim>\<open>st.session_state.results\<close> (\<open>None\<close> while the key is not in the session state).\<close>

record 'w state =
  world :: 'w
  requests :: "request list"
  ui :: "element list"
  results :: "screening_result list option"

definition st :: "element \<Rightarrow> 'w state \<Rightarrow> 'w state" where
  "st e s = s\<lparr>ui := ui s @ [e]\<rparr>"

text \<open>The requests of the log that went to the scorer.\<close>

definition score_requests :: "'w state \<Rightarrow> request list" where
  "score_requests s = filter is_score_request (requests s)"

text \<open>Reading \<^verbatim>\<open>st.session_state.results\<close>. The script creates the key before it reads it;
  without the key the read would raise, and no run reaches a read in that state.\<close>

definition session_results :: "'w state \<Rightarrow> screening_result list" where
  "session_results s = (case results s of None \<Rightarrow> [] | Some rs \<Rightarrow> rs)"

section \<open>Formatting\<close>

text \<open>\<^verbatim>\<open>str(n)\<close> inside an f-string, for an integer.\<close>

fun digits :: "nat \<Rightarrow> string" where
  "digits n =
     (if n < 10 then [''0123456789'' ! n] else digits (n div 10) @ [''0123456789'' ! (n mod 10)])"

declare digits.simps [simp del]

definition str_int :: "int \<Rightarrow> string" where
  "str_int i = (if i < 0 then CHR ''-'' # digits (nat (- i)) else digits (nat i))"

text \<open>\<^verbatim>\<open>s.split(sep)\<close> for a separator of one character: the pieces between the
  separators, never an empty list.\<close>

fun split_from :: "char \<Rightarrow> string \<Rightarrow> string \<Rightarrow> string list" where
  "split_from sep piece [] = [rev piece]"
| "split_from sep piece (c # cs) =
     (if c = sep then rev piece # split_from sep [] cs else split_from sep (c # piece) cs)"

definition str_split :: "char \<Rightarrow> string \<Rightarrow> string list" where
  "str_split sep s = split_from sep [] s"

section \<open>Text extraction (lines 19 to 53)\<close>

text \<open>\<^verbatim>\<open>file_extension = uploaded_file.name.split('.')[-1].lower()\<close>: what follows the last
  dot of the name, the whole name when it has no dot.\<close>

definition file_extension :: "'w runtime \<Rightarrow> string \<Rightarrow> string" where
  "file_extension rt fname = str_lower rt (last (str_split (CHR ''.'') fname))"

text \<open>\<^verbatim>\<open>for page in pdf_document: text += page.get_text()\<close>; an exception leaves the loop.\<close>

fun page_texts :: "string \<Rightarrow> (exn + string) list \<Rightarrow> exn + string" where
  "page_texts text [] = Inr text"
| "page_texts text (page # pages) =
     (case page of Inl e \<Rightarrow> Inl e | Inr t \<Rightarrow> page_texts (text @ t) pages)"

text \<open>\<^verbatim>\<open>for para in doc.paragraphs: text += para.text + "\n"\<close>\<close>

definition paragraph_texts :: "string \<Rightarrow> string list \<Rightarrow> string" where
  "paragraph_texts text paragraphs =
     foldl (\<lambda>text para. text @ (para @ [CHR 0x0A])) text paragraphs"

text \<open>\<^verbatim>\<open>get_file_text\<close> returns the text, or \<open>None\<close> after an exception, which it reports
  with \<^verbatim>\<open>st.error\<close>. When no branch matches the extension, \<open>text\<close> is still the empty string
  it was initialised with.\<close>

definition get_file_text ::
  "'w runtime \<Rightarrow> uploaded_file \<Rightarrow> 'w state \<Rightarrow> string option \<times> 'w state" where
  "get_file_text rt uploaded_file s =
     (let text = [];
          failed = (\<lambda>e s. (None,
            st (St_error (''Error reading '' @ file_name uploaded_file @ '': '' @ e)) s));
          ext = file_extension rt (file_name uploaded_file)
      in
      if ext = ''pdf'' then
        (case fitz_open rt (file_bytes uploaded_file) of
           Inl e \<Rightarrow> failed e s
         | Inr pdf_document \<Rightarrow>
             (case page_texts text pdf_document of
                Inl e \<Rightarrow> failed e s
              | Inr text \<Rightarrow> (Some text, s)))
      else if ext = ''docx'' then
        (case docx_Document rt (file_bytes uploaded_file) of
           Inl e \<Rightarrow> failed e s
         | Inr paragraphs \<Rightarrow> (Some (paragraph_texts text paragraphs), s))
      else if ext = ''txt'' then
        (case decode_utf8 rt (file_bytes uploaded_file) of
           Inl e \<Rightarrow> failed e s
         | Inr text \<Rightarrow> (Some text, s))
      else if ext \<in> set [''png'', ''jpg'', ''jpeg''] then
        (let q = Ocr_request (file_type uploaded_file) (file_bytes uploaded_file);
             (response, w) = generate_content rt (world s) q;
             s = s\<lparr>world := w, requests := requests s @ [q]\<rparr>
         in case response of
              Inl e \<Rightarrow> failed e s
            | Inr text \<Rightarrow> (Some text, s))
      else (Some text, s))"

section \<open>Scoring (lines 56 to 113)\<close>

text \<open>\<^verbatim>\<open>get_jd_match_from_gemini\<close> sends one request and parses the reply; any exception
  is reported with \<^verbatim>\<open>st.error\<close> and gives \<open>None\<close>.\<close>

definition get_jd_match_from_gemini ::
  "'w runtime \<Rightarrow> string \<Rightarrow> string \<Rightarrow> 'w state \<Rightarrow> analysis option \<times> 'w state" where
  "get_jd_match_from_gemini rt job_description resume_text s =
     (let failed = (\<lambda>e s. (None, st (St_error (''An error occurred with the AI model: '' @ e)) s));
          q = Score_request job_description resume_text;
          (response, w) = generate_content rt (world s) q;
          s = s\<lparr>world := w, requests := requests s @ [q]\<rparr>
      in case response of
           Inl e \<Rightarrow> failed e s
         | Inr response_text \<Rightarrow>
             (case json_loads rt response_text of
                Inl e \<Rightarrow> failed e s
              | Inr a \<Rightarrow> (Some a, s)))"

section \<open>The evaluation run (lines 145 to 164)\<close>

text \<open>The dictionary without keys, which \<^verbatim>\<open>if analysis:\<close> takes for false, as it does
  \<open>None\<close>.\<close>

definition empty_dict :: analysis where
  "empty_dict = \<lparr>name = None, email = None, phone = None, score = None,
     justification = None, location = None, matching_keywords = None\<rparr>"

text \<open>The body of \<^verbatim>\<open>for file in uploaded_files\<close>, on the pair of \<^verbatim>\<open>new_results\<close> and the
  state.\<close>

definition process_file ::
  "'w runtime \<Rightarrow> string \<Rightarrow> uploaded_file \<Rightarrow> screening_result list \<times> 'w state
     \<Rightarrow> screening_result list \<times> 'w state" where
  "process_file rt job_description file acc =
     (let (new_results, s) = acc;
          s = st (St_info (''Processing: '' @ file_name file)) s;
          (resume_text, s) = get_file_text rt file s;
          no_text = (\<lambda>s. (new_results,
            st (St_warning (''Could not extract text from: '' @ file_name file)) s));
          no_analysis = (\<lambda>s. (new_results,
            st (St_error (''Could not get AI analysis for: '' @ file_name file)) s))
      in case resume_text of
           None \<Rightarrow> no_text s
         | Some text \<Rightarrow>
             if text \<noteq> [] then
               (let (analysis_v, s) = get_jd_match_from_gemini rt job_description text s
                in case analysis_v of
                     None \<Rightarrow> no_analysis s
                   | Some a \<Rightarrow>
                       if a \<noteq> empty_dict then
                         (new_results @ [\<lparr>filename = file_name file, analysis = a\<rparr>],
                          st (St_success (''Successfully evaluated: '' @ file_name file)) s)
                       else no_analysis s)
             else no_text s)"

definition process_files ::
  "'w runtime \<Rightarrow> string \<Rightarrow> uploaded_file list \<Rightarrow> screening_result list \<times> 'w state
     \<Rightarrow> screening_result list \<times> 'w state" where
  "process_files rt job_description uploaded_files acc =
     foldl (\<lambda>acc file. process_file rt job_description file acc) acc uploaded_files"

text \<open>\<^verbatim>\<open>st.spinner(f"Evaluating {len(uploaded_files)} resume(s)...")\<close>\<close>

definition spinner :: "uploaded_file list \<Rightarrow> element" where
  "spinner uploaded_files =
     St_spinner (''Evaluating '' @ str_int (int (length uploaded_files)) @ '' resume(s)...'')"

text \<open>The block under \<^verbatim>\<open>if st.button("Evaluate Resumes", ...)\<close>.\<close>

definition evaluate_resumes ::
  "'w runtime \<Rightarrow> string \<Rightarrow> uploaded_file list \<Rightarrow> 'w state \<Rightarrow> 'w state" where
  "evaluate_resumes rt job_description uploaded_files s =
     (if job_description \<noteq> [] \<and> uploaded_files \<noteq> [] then
        (let s = st (spinner uploaded_files) s;
             (new_results, s) = process_files rt job_description uploaded_files ([], s)
         in s\<lparr>results := Some new_results\<rparr>)
      else st (St_warning
             ''Please provide a job description and upload at least one resume.'') s)"

section \<open>The script\<close>

text \<open>What a run of the script reads: the secrets, the values of the widgets and whether the
  button was pressed.\<close>

record inputs =
  in_secrets :: "string \<rightharpoonup> string"
  in_job_description :: string
  in_uploaded_files :: "uploaded_file list"
  in_button :: bool
  in_target_location :: string
  in_min_score :: int

text \<open>The sidebar, lines 134 to 164.\<close>

definition sidebar :: "'w runtime \<Rightarrow> inputs \<Rightarrow> 'w state \<Rightarrow> 'w state" where
  "sidebar rt inp s =
     (let s = st (St_subheader ''1. Enter Details'') s;
          s = st (St_text_area ''Paste the Job Description'') s;
          s = st (St_subheader ''2. Upload Resumes'') s;
          s = st (St_file_uploader ''Choose resume files'') s;
          s = st (St_button ''Evaluate Resumes'') s
      in if in_button inp
         then evaluate_resumes rt (in_job_description inp) (in_uploaded_files inp) s
         else s)"

text \<open>One result of the list, lines 234 to 255.\<close>

definition render_result :: "screening_result \<Rightarrow> 'w state \<Rightarrow> 'w state" where
  "render_result result s =
     (let analysis_data = analysis result;
          score_v = get (score analysis_data) 0;
          location_v = get (location analysis_data) ''Not Found'';
          s = st (St_markdown (''**'' @ filename result @ ''**'')) s;
          s = st (St_markdown (''**Location:** '' @ location_v)) s;
          s = st (St_metric ''Match Score'' (str_int score_v @ ''%'')) s;
          s = st (St_markdown (''**Justification:** *''
                @ get (justification analysis_data) ''N/A'' @ ''*'')) s;
          keywords = get (matching_keywords analysis_data) []
      in if keywords \<noteq> [] then
           (let s = st (St_markdown ''**Matching Keywords Found:**'') s;
                keywords_html = concat (map (\<lambda>kw.
                  ''<span style='background-color:#E0E0E0; color:#333; border-radius:5px; padding: 2px 8px; margin: 2px;'>''
                  @ kw @ ''</span>'') keywords)
            in st (St_markdown keywords_html) s)
         else s)"

text \<open>The results section, lines 166 to 259.\<close>

definition view :: "'w runtime \<Rightarrow> inputs \<Rightarrow> 'w state \<Rightarrow> 'w state" where
  "view rt inp s =
     (let s = st (St_subheader ''3. Screening Evaluation'') s in
      if session_results s \<noteq> [] then
        (let s = st (St_markdown ''#### Filter Your Results'') s;
             s = st (St_text_input ''Filter by Location'') s;
             s = st (St_number_input ''Minimum Match Score'') s;
             filtered_results = filter_results (str_lower rt) (in_target_location inp)
                                  (in_min_score inp) (session_results s);
             displayed = sorted_results filtered_results
         in if displayed \<noteq> [] then
              (let s = st (St_download_button (export_data displayed)) s;
                   s = st St_divider s;
                   s = st (St_success (''Displaying '' @ str_int (int (length displayed))
                          @ '' matching candidate(s).'')) s
               in foldl (\<lambda>s result. render_result result s) s displayed)
            else st (St_warning ''No resumes match your current filter criteria.'') s)
      else st (St_info
        ''Your evaluation results will appear here after you upload resumes and click 'Evaluate'.'')
        s)"

text \<open>The head of the page and the creation of the result set, lines 118 to 124:
  \<^verbatim>\<open>if 'results' not in st.session_state: st.session_state.results = []\<close>.\<close>

definition header :: "'w state \<Rightarrow> 'w state" where
  "header s =
     (let s = st (St_title ''AI Resume Screener'') s;
          s = st (St_markdown
            ''Evaluate multiple resumes against a job description to find the best candidates.'') s;
          s = st St_divider s
      in if results s = None then s\<lparr>results := Some []\<rparr> else s)"

text \<open>One run of the script. Each run writes the page anew. When the key is not among the
  secrets, the lookup raises, the handler writes the error and \<^verbatim>\<open>st.stop()\<close> ends the
  run.\<close>

definition app :: "'w runtime \<Rightarrow> inputs \<Rightarrow> 'w state \<Rightarrow> 'w state" where
  "app rt inp s =
     (let s = header (s\<lparr>ui := []\<rparr>)
      in case in_secrets inp ''GOOGLE_API_KEY'' of
           None \<Rightarrow>
             st (St_error
               ''**API Key Not Found!** Please add your GOOGLE_API_KEY to the secrets.toml file.'') s
         | Some api_key \<Rightarrow> view rt inp (sidebar rt inp s))"

text \<open>A session: the script runs once for every interaction, each run on the state the
  previous one left.\<close>

definition reruns :: "'w runtime \<Rightarrow> inputs list \<Rightarrow> 'w state \<Rightarrow> 'w state" where
  "reruns rt inps s = foldl (\<lambda>s inp. app rt inp s) s inps"

section \<open>Concrete data for evaluation\<close>

text \<open>The result set of the scenarios of the specification: A and C score 90, B scores 60.\<close>

definition candidate :: "string \<Rightarrow> int \<Rightarrow> string \<Rightarrow> screening_result" where
  "candidate n sc loc =
     \<lparr>filename = n @ ''.pdf'',
      analysis = \<lparr>name = Some n, email = None, phone = Some ''555-0100'', score = Some sc,
        justification = Some ''Relevant experience.'', location = Some loc,
        matching_keywords = Some [''python'', ''sql'', ''aws'']\<rparr>\<rparr>"

definition result_A :: screening_result where
  "result_A = candidate ''A'' 90 ''Austin, TX''"

definition result_B :: screening_result where
  "result_B = candidate ''B'' 60 ''Hyderabad''"

definition result_C :: screening_result where
  "result_C = candidate ''C'' 90 ''Remote''"

text \<open>A result whose analysis has no score and no location.\<close>

definition result_D :: screening_result where
  "result_D = \<lparr>filename = ''D.txt'',
     analysis = empty_dict\<lparr>name := Some ''D'', email := Some ''d@example.org''\<rparr>\<rparr>"

text \<open>A runtime to evaluate with. The world counts the requests; the service answers a
  scoring request with the resume text itself and an image request with a fixed text, and the
  third request and every later one with an exception. A pdf has one page per byte and the page
  of the byte 0 cannot be read; a docx has the paragraphs \<open>a\<close> and \<open>b\<close>; the bytes 123, 125
  decode to a pair of braces and any other byte to \<open>x\<close>; a pair of braces parses to the
  dictionary without keys, the empty reply does not parse, and any other reply parses to an
  analysis.\<close>

definition demo_rt :: "nat runtime" where
  "demo_rt =
     \<lparr>str_lower = ascii_lower,
      fitz_open = (\<lambda>b. if b = [] then Inl ''cannot open empty document''
                        else Inr (map (\<lambda>w. if w = 0 then Inl ''bad page'' else Inr ''page '') b)),
      docx_Document = (\<lambda>b. if b = [] then Inl ''not a zip file'' else Inr [''a'', ''b'']),
      decode_utf8 = (\<lambda>b. if b = [255] then Inl ''invalid start byte''
                          else if b = [123, 125] then Inr ''{}''
                          else Inr (map (\<lambda>w. CHR ''x'') b)),
      json_loads = (\<lambda>t. if t = [] then Inl ''Expecting value''
                         else if t = ''{}'' then Inr empty_dict
                         else Inr (analysis (candidate t 80 ''Pune''))),
      generate_content = (\<lambda>w q. (if 2 \<le> w then Inl ''quota exceeded''
                                   else (case q of
                                           Ocr_request mime img \<Rightarrow> Inr ''text of the image''
                                         | Score_request jd text \<Rightarrow> Inr text), Suc w))\<rparr>"

definition demo_state :: "nat state" where
  "demo_state = \<lparr>world = 0, requests = [], ui = [], results = Some [result_B]\<rparr>"

definition demo_file :: "string \<Rightarrow> nat list \<Rightarrow> uploaded_file" where
  "demo_file n b = \<lparr>file_name = n, file_type = ''application/octet-stream'',
     file_bytes = map of_nat b\<rparr>"

definition demo_inputs :: inputs where
  "demo_inputs =
     \<lparr>in_secrets = [''GOOGLE_API_KEY'' \<mapsto> ''secret''],
      in_job_description = ''Seeking a Python developer'',
      in_uploaded_files = [demo_file ''one.txt'' [1, 2], demo_file ''two.csv'' [3]],
      in_button = False,
      in_target_location = ''hyder'',
      in_min_score = 0\<rparr>"

text \<open>Five uploads: a pdf with a page that cannot be read, a text file, a docx, an image
  that meets the third request and a text file that meets a later one.\<close>

definition bad_pdf :: uploaded_file where
  "bad_pdf = demo_file ''b.pdf'' [1, 0]"

definition one_txt :: uploaded_file where
  "one_txt = demo_file ''one.txt'' [1, 2]"

definition late_txt :: uploaded_file where
  "late_txt = demo_file ''late.txt'' [1]"

definition braces_txt :: uploaded_file where
  "braces_txt = demo_file ''braces.txt'' [123, 125]"

definition demo_files :: "uploaded_file list" where
  "demo_files = [bad_pdf, one_txt, demo_file ''c.docx'' [7], demo_file ''d.png'' [1], late_txt]"

definition demo_start :: "nat state" where
  "demo_start = st (spinner demo_files) demo_state"

text \<open>An upload with an extension the script does not know, and a text file without
  content.\<close>

definition csv_file :: uploaded_file where
  "csv_file = demo_file ''notes.CSV'' [1, 2, 3]"

definition empty_txt :: uploaded_file where
  "empty_txt = demo_file ''empty.txt'' []"

text \<open>The text of a docx in the words of the specification: the texts of the paragraphs with a
  newline between one paragraph and the next.\<close>

fun separated_by_newline :: "string list \<Rightarrow> string" where
  "separated_by_newline [] = []"
| "separated_by_newline [p] = p"
| "separated_by_newline (p # q # ps) = p @ [CHR 0x0A] @ separated_by_newline (q # ps)"



definition cv_docx :: uploaded_file where
  "cv_docx = demo_file ''cv.DOCX'' [7]"

text \<open>The inputs of a run without the key among the secrets, with the button pressed.\<close>

definition no_key_inputs :: inputs where
  "no_key_inputs = demo_inputs\<lparr>in_secrets := Map.empty, in_button := True\<rparr>"

section \<open>Properties of the view\<close>

lemma str_in_sublist: "str_in needle hay \<longleftrightarrow> sublist needle hay"
  by (induction hay) (auto simp: sublist_Cons_right)

lemma foldl_append_map: "foldl (\<lambda>acc x. acc @ [f x]) acc xs = acc @ map f xs"
  by (induction xs arbitrary: acc) simp_all

lemma export_data_map: "export_data rs = map export_row_of rs"
  by (simp add: export_data_def foldl_append_map)

subsection \<open>Filtering\<close>

lemma filter_results_eq:
  "filter_results lower target_location min_score rs =
     filter (\<lambda>r. (target_location = [] \<or>
                    (\<exists>pre post. lower (get (location (analysis r)) '''') = pre @ lower target_location @ post))
                 \<and> min_score \<le> get (score (analysis r)) 0) rs"
  by (simp add: filter_results_def str_in_sublist sublist_def conj_commute)

text \<open>
  Claim C1. The filtered list is the result set restricted, in its order, to the results that
  pass both tests: the location test, which every result passes when \<open>target_location\<close> is
  empty and which otherwise asks that the lowered \<open>target_location\<close> occurs inside the lowered
  location of the analysis (the empty string when the analysis has none), and the score test
  \<open>min_score \<le> score\<close> (the score is 0 when the analysis has none), which is applied
  whatever \<open>target_location\<close> is. So a result whose score is below \<open>min_score\<close> is never in
  the filtered list. This holds for every lowering function.
\<close>

theorem filter_keeps_iff:
  "filter_results lower target_location min_score rs =
     filter (\<lambda>r. (target_location = [] \<or>
                    (\<exists>pre post. lower (get (location (analysis r)) '''') = pre @ lower target_location @ post))
                 \<and> min_score \<le> get (score (analysis r)) 0) rs
   \<and> (\<forall>r. get (score (analysis r)) 0 < min_score \<longrightarrow>
          r \<notin> set (filter_results lower target_location min_score rs))"
  by (simp add: filter_results_eq)

theorem filter_keeps_iff_witness:
  "get (score (analysis result_B)) 0 < 70
   \<and> result_B \<notin> set (filter_results ascii_lower ''hyder'' 70 [result_A, result_B, result_C])
   \<and> filter_results ascii_lower [] 70 [result_A, result_B, result_C] = [result_A, result_C]"
proof -
  have low: "get (score (analysis result_B)) 0 < 70"
    by (simp add: result_B_def candidate_def get_def)
  have scores: "get (score (analysis result_A)) 0 = 90" "get (score (analysis result_C)) 0 = 90"
    by (simp_all add: result_A_def result_C_def candidate_def get_def)
  from filter_keeps_iff [of ascii_lower "''hyder''" 70 "[result_A, result_B, result_C]"] low
  have "result_B \<notin> set (filter_results ascii_lower ''hyder'' 70 [result_A, result_B, result_C])"
    by blast
  moreover from filter_keeps_iff [of ascii_lower "[]" 70 "[result_A, result_B, result_C]"] low scores
  have "filter_results ascii_lower [] 70 [result_A, result_B, result_C] = [result_A, result_C]"
    by simp
  ultimately show ?thesis using low by simp
qed

subsection \<open>Sorting\<close>

lemma sorted_py_reverse_desc:
  "sorted_wrt (\<lambda>x y. key x \<ge> key y) (sorted_py key True xs)"
proof -
  have "sorted (map key (sort_key key (rev xs)))" by (rule sorted_sort_key)
  then have "sorted_wrt (\<lambda>x y. key x \<le> key y) (sort_key key (rev xs))"
    by (simp add: sorted_map)
  then show ?thesis by (simp add: sorted_py_def sorted_wrt_rev)
qed

lemma sorted_py_reverse_stable:
  "filter (\<lambda>x. key x = v) (sorted_py key True xs) = filter (\<lambda>x. key x = v) xs"
proof -
  have "filter (\<lambda>x. key x = v) (rev (sort_key key (rev xs)))
      = rev (filter (\<lambda>x. key x = v) (sort_key key (rev xs)))"
    by (simp add: rev_filter)
  also have "\<dots> = rev (filter (\<lambda>x. key x = v) (rev xs))"
    by (simp only: sort_key_stable)
  also have "\<dots> = filter (\<lambda>x. key x = v) xs"
    by (simp add: rev_filter)
  finally show ?thesis by (simp add: sorted_py_def)
qed

lemma sorted_py_mset: "mset (sorted_py key reverse xs) = mset xs"
  by (simp add: sorted_py_def)

lemma filter_results_subseq: "subseq (filter_results lower t m rs) rs"
  by (simp add: filter_results_def)

text \<open>
  Claim C2. The displayed list is in descending order of the score, it has the elements of the
  filtered list, and for every score the results with that score stand in the displayed list
  in the order they have in the filtered list, which is their order in the result set, the
  filtered list being a subsequence of it.
\<close>

theorem display_sorted_stable:
  "sorted_wrt (\<lambda>x y. get (score (analysis x)) 0 \<ge> get (score (analysis y)) 0)
     (sorted_results (filter_results lower target_location min_score rs))
   \<and> mset (sorted_results (filter_results lower target_location min_score rs))
       = mset (filter_results lower target_location min_score rs)
   \<and> (\<forall>v. [r \<leftarrow> sorted_results (filter_results lower target_location min_score rs).
              get (score (analysis r)) 0 = v]
          = [r \<leftarrow> filter_results lower target_location min_score rs.
              get (score (analysis r)) 0 = v])
   \<and> subseq (filter_results lower target_location min_score rs) rs"
  unfolding sorted_results_def
  by (intro conjI allI sorted_py_reverse_desc sorted_py_reverse_stable sorted_py_mset
        filter_results_subseq)

theorem display_sorted_stable_witness:
  "sorted_results (filter_results ascii_lower [] 70 [result_A, result_B, result_C])
     = [result_A, result_C]"
proof -
  let ?f = "filter_results ascii_lower [] 70 [result_A, result_B, result_C]"
  have f: "?f = [result_A, result_C]"
    by (simp add: filter_results_def result_A_def result_B_def result_C_def candidate_def get_def)
  have sc: "get (score (analysis result_A)) 0 = 90" "get (score (analysis result_C)) 0 = 90"
    by (simp_all add: result_A_def result_C_def candidate_def get_def)
  from display_sorted_stable [of ascii_lower "[]" 70 "[result_A, result_B, result_C]"]
  have "[r \<leftarrow> sorted_results ?f. get (score (analysis r)) 0 = 90]
      = [r \<leftarrow> ?f. get (score (analysis r)) 0 = 90]"
    and m: "mset (sorted_results ?f) = mset ?f"
    by blast+
  then have st: "[r \<leftarrow> sorted_results ?f. get (score (analysis r)) 0 = 90] = [result_A, result_C]"
    by (simp add: f sc)
  from m have "set (sorted_results ?f) = {result_A, result_C}"
    by (metis f list.simps(15) set_mset_mset empty_set)
  then have "\<forall>r \<in> set (sorted_results ?f). get (score (analysis r)) 0 = 90"
    using sc by auto
  then have "[r \<leftarrow> sorted_results ?f. get (score (analysis r)) 0 = 90] = sorted_results ?f"
    by (simp add: filter_True)
  with st show ?thesis by simp
qed

section \<open>Properties of extraction and of the evaluation run\<close>

subsection \<open>Writing to the page\<close>

lemma st_fields [simp]:
  "world (st e s) = world s"
  "requests (st e s) = requests s"
  "results (st e s) = results s"
  "ui (st e s) = ui s @ [e]"
  by (simp_all add: st_def)

lemma st_observers [simp]:
  "score_requests (st e s) = score_requests s"
  "session_results (st e s) = session_results s"
  by (simp_all add: score_requests_def session_results_def)

subsection \<open>Extraction\<close>

lemma get_file_text_unsupported:
  assumes "file_extension rt (file_name f) \<notin> set [''pdf'', ''docx'', ''txt'', ''png'', ''jpg'', ''jpeg'']"
  shows "get_file_text rt f s = (Some [], s)"
  using assms by (simp add: get_file_text_def)

lemma get_file_text_results: "results (snd (get_file_text rt f s)) = results s"
  by (simp add: get_file_text_def Let_def split: sum.splits prod.splits)

lemma get_file_text_score_requests:
  "score_requests (snd (get_file_text rt f s)) = score_requests s"
  by (simp add: get_file_text_def Let_def score_requests_def split: sum.splits prod.splits)

lemma get_file_text_supported:
  assumes "fst (get_file_text rt f s) = Some t" and "t \<noteq> []"
  shows "file_extension rt (file_name f) \<in> set [''pdf'', ''docx'', ''txt'', ''png'', ''jpg'', ''jpeg'']"
proof (rule ccontr)
  assume "\<not> ?thesis"
  then have "get_file_text rt f s = (Some [], s)" by (rule get_file_text_unsupported)
  with assms show False by simp
qed

subsection \<open>Scoring\<close>

lemma get_jd_match_results: "results (snd (get_jd_match_from_gemini rt jd t s)) = results s"
  by (simp add: get_jd_match_from_gemini_def Let_def split: sum.splits prod.splits)

lemma get_jd_match_score_requests:
  "score_requests (snd (get_jd_match_from_gemini rt jd t s))
     = score_requests s @ [Score_request jd t]"
  by (simp add: get_jd_match_from_gemini_def Let_def score_requests_def
        split: sum.splits prod.splits)

subsection \<open>The loop body\<close>

lemma process_file_no_text:
  assumes "get_file_text rt f (st (St_info (''Processing: '' @ file_name f)) s) = (tx, s2)"
    and "tx = None \<or> tx = Some []"
  shows "process_file rt jd f (acc, s)
           = (acc, st (St_warning (''Could not extract text from: '' @ file_name f)) s2)"
  using assms by (auto simp: process_file_def)

lemma process_file_no_analysis:
  assumes "get_file_text rt f (st (St_info (''Processing: '' @ file_name f)) s) = (Some t, s2)"
    and "t \<noteq> []"
    and "get_jd_match_from_gemini rt jd t s2 = (a, s3)"
    and "a = None \<or> a = Some empty_dict"
  shows "process_file rt jd f (acc, s)
           = (acc, st (St_error (''Could not get AI analysis for: '' @ file_name f)) s3)"
  using assms by (auto simp: process_file_def)

lemma process_file_success:
  assumes "get_file_text rt f (st (St_info (''Processing: '' @ file_name f)) s) = (Some t, s2)"
    and "t \<noteq> []"
    and "get_jd_match_from_gemini rt jd t s2 = (Some a, s3)"
    and "a \<noteq> empty_dict"
  shows "process_file rt jd f (acc, s)
           = (acc @ [\<lparr>filename = file_name f, analysis = a\<rparr>],
              st (St_success (''Successfully evaluated: '' @ file_name f)) s3)"
  using assms by (auto simp: process_file_def)

lemma process_file_cases:
  obtains (skipped) "fst (process_file rt jd f (acc, s)) = acc"
  | (appended) t s2 a s3 where
      "get_file_text rt f (st (St_info (''Processing: '' @ file_name f)) s) = (Some t, s2)"
      "t \<noteq> []" "get_jd_match_from_gemini rt jd t s2 = (Some a, s3)" "a \<noteq> empty_dict"
      "fst (process_file rt jd f (acc, s)) = acc @ [\<lparr>filename = file_name f, analysis = a\<rparr>]"
proof -
  obtain tx s2 where g: "get_file_text rt f (st (St_info (''Processing: '' @ file_name f)) s) = (tx, s2)"
    by (cases "get_file_text rt f (st (St_info (''Processing: '' @ file_name f)) s)")
  show thesis
  proof (cases "tx = None \<or> tx = Some []")
    case True
    from process_file_no_text [OF g True] show thesis by (intro skipped) simp
  next
    case False
    then obtain t where t: "tx = Some t" "t \<noteq> []" by auto
    obtain a s3 where j: "get_jd_match_from_gemini rt jd t s2 = (a, s3)"
      by (cases "get_jd_match_from_gemini rt jd t s2")
    show thesis
    proof (cases "a = None \<or> a = Some empty_dict")
      case True
      from process_file_no_analysis [OF g [unfolded t(1)] t(2) j True] show thesis
        by (intro skipped) simp
    next
      case False
      then obtain b where b: "a = Some b" "b \<noteq> empty_dict" by auto
      from process_file_success [OF g [unfolded t(1)] t(2) j [unfolded b(1)] b(2)]
      show thesis using g t j b by (intro appended [of t s2 b s3]) simp_all
    qed
  qed
qed

lemma process_file_results: "results (snd (process_file rt jd f (acc, s))) = results s"
proof -
  obtain tx s2 where g: "get_file_text rt f (st (St_info (''Processing: '' @ file_name f)) s) = (tx, s2)"
    by (cases "get_file_text rt f (st (St_info (''Processing: '' @ file_name f)) s)")
  have r2: "results s2 = results s"
    using get_file_text_results [of rt f "st (St_info (''Processing: '' @ file_name f)) s"] g
    by simp
  show ?thesis
  proof (cases "tx = None \<or> tx = Some []")
    case True
    from process_file_no_text [OF g True] r2 show ?thesis by simp
  next
    case False
    then obtain t where t: "tx = Some t" "t \<noteq> []" by auto
    obtain a s3 where j: "get_jd_match_from_gemini rt jd t s2 = (a, s3)"
      by (cases "get_jd_match_from_gemini rt jd t s2")
    have r3: "results s3 = results s"
      using get_jd_match_results [of rt jd t s2] j r2 by simp
    show ?thesis
    proof (cases "a = None \<or> a = Some empty_dict")
      case True
      from process_file_no_analysis [OF g [unfolded t(1)] t(2) j True] r3 show ?thesis by simp
    next
      case False
      then obtain b where b: "a = Some b" "b \<noteq> empty_dict" by auto
      from process_file_success [OF g [unfolded t(1)] t(2) j [unfolded b(1)] b(2)] r3
      show ?thesis by simp
    qed
  qed
qed

subsection \<open>The loop\<close>

lemma process_files_Nil [simp]: "process_files rt jd [] acc = acc"
  by (simp add: process_files_def)

lemma process_files_Cons [simp]:
  "process_files rt jd (f # fs) acc = process_files rt jd fs (process_file rt jd f acc)"
  by (simp add: process_files_def)

lemma process_files_append:
  "process_files rt jd (fs @ gs) acc = process_files rt jd gs (process_files rt jd fs acc)"
  by (simp add: process_files_def)

lemma process_files_results: "results (snd (process_files rt jd fs (acc, s))) = results s"
proof (induction fs arbitrary: acc s)
  case Nil
  show ?case by simp
next
  case (Cons f fs)
  obtain acc' s' where p: "process_file rt jd f (acc, s) = (acc', s')"
    by (cases "process_file rt jd f (acc, s)")
  with process_file_results [of rt jd f acc s] have "results s' = results s" by simp
  with Cons.IH [of acc' s'] p show ?case by simp
qed

text \<open>The loop only appends, and what it appends carries names of the files, in their
  order.\<close>

lemma process_files_appends:
  "\<exists>new. fst (process_files rt jd fs (acc, s)) = acc @ new
        \<and> subseq (map filename new) (map file_name fs)"
proof (induction fs arbitrary: acc s)
  case Nil
  show ?case by simp
next
  case (Cons f fs)
  obtain acc' s' where p: "process_file rt jd f (acc, s) = (acc', s')"
    by (cases "process_file rt jd f (acc, s)")
  from Cons.IH [of acc' s'] obtain new where
    new: "fst (process_files rt jd fs (acc', s')) = acc' @ new"
      "subseq (map filename new) (map file_name fs)"
    by blast
  show ?case
  proof (cases rule: process_file_cases [of rt jd f acc s])
    case skipped
    with p have "acc' = acc" by simp
    with new p show ?thesis by (intro exI [of _ new]) auto
  next
    case (appended t s2 a s3)
    with p have "acc' = acc @ [\<lparr>filename = file_name f, analysis = a\<rparr>]" by simp
    with new p show ?thesis
      by (intro exI [of _ "\<lparr>filename = file_name f, analysis = a\<rparr> # new"]) simp
  qed
qed

text \<open>A result the loop appends has the name of a file whose text was not empty, so of a
  file with one of the six extensions.\<close>

lemma process_files_supported:
  assumes "r \<in> set (fst (process_files rt jd fs (acc, s)))"
  shows "r \<in> set acc
       \<or> file_extension rt (filename r) \<in> set [''pdf'', ''docx'', ''txt'', ''png'', ''jpg'', ''jpeg'']"
  using assms
proof (induction fs arbitrary: acc s)
  case Nil
  then show ?case by simp
next
  case (Cons f fs)
  obtain acc' s' where p: "process_file rt jd f (acc, s) = (acc', s')"
    by (cases "process_file rt jd f (acc, s)")
  with Cons.prems have "r \<in> set (fst (process_files rt jd fs (acc', s')))" by simp
  from Cons.IH [OF this] have r: "r \<in> set acc'
       \<or> file_extension rt (filename r) \<in> set [''pdf'', ''docx'', ''txt'', ''png'', ''jpg'', ''jpeg'']" .
  show ?case
  proof (cases rule: process_file_cases [of rt jd f acc s])
    case skipped
    with p r show ?thesis by simp
  next
    case (appended t s2 a s3)
    from appended(1)
    have "fst (get_file_text rt f (st (St_info (''Processing: '' @ file_name f)) s)) = Some t"
      by simp
    from get_file_text_supported [OF this appended(2)]
    have "file_extension rt (file_name f) \<in> set [''pdf'', ''docx'', ''txt'', ''png'', ''jpg'', ''jpeg'']" .
    moreover from appended(5) p have "acc' = acc @ [\<lparr>filename = file_name f, analysis = a\<rparr>]"
      by simp
    ultimately show ?thesis using r by auto
  qed
qed

subsection \<open>The previous result set is not read\<close>

lemma st_results_update: "st e (s\<lparr>results := x\<rparr>) = (st e s)\<lparr>results := x\<rparr>"
  by (simp add: st_def)

lemma get_file_text_results_update:
  "get_file_text rt f (s\<lparr>results := x\<rparr>)
     = (fst (get_file_text rt f s), (snd (get_file_text rt f s))\<lparr>results := x\<rparr>)"
  by (simp add: get_file_text_def Let_def st_results_update split: sum.splits prod.splits)

lemma get_jd_match_results_update:
  "get_jd_match_from_gemini rt jd t (s\<lparr>results := x\<rparr>)
     = (fst (get_jd_match_from_gemini rt jd t s),
        (snd (get_jd_match_from_gemini rt jd t s))\<lparr>results := x\<rparr>)"
  by (simp add: get_jd_match_from_gemini_def Let_def st_results_update
        split: sum.splits prod.splits)

lemma process_file_results_update:
  "process_file rt jd f (acc, s\<lparr>results := x\<rparr>)
     = (fst (process_file rt jd f (acc, s)), (snd (process_file rt jd f (acc, s)))\<lparr>results := x\<rparr>)"
  by (simp add: process_file_def Let_def st_results_update get_file_text_results_update
        get_jd_match_results_update split: option.splits prod.splits)

lemma process_files_results_update:
  "process_files rt jd fs (acc, s\<lparr>results := x\<rparr>)
     = (fst (process_files rt jd fs (acc, s)), (snd (process_files rt jd fs (acc, s)))\<lparr>results := x\<rparr>)"
proof (induction fs arbitrary: acc s)
  case Nil
  show ?case by simp
next
  case (Cons f fs)
  obtain acc' s' where p: "process_file rt jd f (acc, s) = (acc', s')"
    by (cases "process_file rt jd f (acc, s)")
  then show ?case
    using Cons.IH [of acc' s'] by (simp add: process_file_results_update)
qed

lemma evaluate_resumes_valid:
  assumes "jd \<noteq> []" and "fs \<noteq> []"
  shows "evaluate_resumes rt jd fs s
           = (snd (process_files rt jd fs ([], st (spinner fs) s)))
               \<lparr>results := Some (fst (process_files rt jd fs ([], st (spinner fs) s)))\<rparr>"
  using assms by (simp add: evaluate_resumes_def Let_def split: prod.splits)

lemma evaluate_resumes_replaces:
  assumes "jd \<noteq> []" and "fs \<noteq> []"
  shows "evaluate_resumes rt jd fs (s\<lparr>results := old\<rparr>) = evaluate_resumes rt jd fs s"
  using assms
  by (simp add: evaluate_resumes_valid st_results_update process_files_results_update)

subsection \<open>The evaluation run\<close>

text \<open>
  Claim C3. Take a run of the evaluation on a job description that is not empty and on the
  uploads \<open>earlier @ f # later\<close>. The loop takes the files one after the other: it reaches \<open>f\<close>
  with the results \<open>acc1\<close> of the earlier files, in the state \<open>s1\<close>; extraction of \<open>f\<close> gives
  \<open>tx\<close>; the loop leaves \<open>f\<close> with the results \<open>acc3\<close> in the state \<open>s3\<close> and ends with \<open>acc4\<close>. Then:
  \<^item> when extraction raised, or gave the empty text, no request was sent to the scorer for \<open>f\<close>
    and \<open>f\<close> adds no result;
  \<^item> when extraction gave a text, exactly one request was sent to the scorer for \<open>f\<close>, with the
    job description and that text;
  \<^item> when extraction gave a text and the scorer raised, or returned the dictionary without
    keys, \<open>f\<close> adds no result;
  \<^item> when extraction gave a text and the scorer an analysis with a key, \<open>f\<close> adds exactly the
    result that carries this analysis under the name of \<open>f\<close>, at the end of the results;
  \<^item> \<open>f\<close> adds nothing or one result, and one only in the case before;
  \<^item> the new result set is \<open>acc4\<close>; the results of the later files come after those of \<open>f\<close>
    and of the earlier files, and the names in the result set follow the order of the uploads;
  \<^item> the outcome of the run does not depend on the previous result set: the run replaces it.
\<close>

theorem evaluation_run:
  assumes "job_description \<noteq> []"
    and "process_files rt job_description earlier
           ([], st (spinner (earlier @ f # later)) s) = (acc1, s1)"
    and "get_file_text rt f (st (St_info (''Processing: '' @ file_name f)) s1) = (tx, s2)"
    and "process_file rt job_description f (acc1, s1) = (acc3, s3)"
    and "process_files rt job_description later (acc3, s3) = (acc4, s4)"
  shows "(tx = None \<longrightarrow> acc3 = acc1 \<and> score_requests s3 = score_requests s1)
    \<and> (tx = Some [] \<longrightarrow> acc3 = acc1 \<and> score_requests s3 = score_requests s1)
    \<and> (\<forall>t. tx = Some t \<and> t \<noteq> []
          \<longrightarrow> score_requests s3 = score_requests s1 @ [Score_request job_description t])
    \<and> (\<forall>t s'. tx = Some t \<and> t \<noteq> [] \<and> get_jd_match_from_gemini rt job_description t s2 = (None, s')
          \<longrightarrow> acc3 = acc1)
    \<and> (\<forall>t s'. tx = Some t \<and> t \<noteq> []
            \<and> get_jd_match_from_gemini rt job_description t s2 = (Some empty_dict, s')
          \<longrightarrow> acc3 = acc1)
    \<and> (\<forall>t a s'. tx = Some t \<and> t \<noteq> []
            \<and> get_jd_match_from_gemini rt job_description t s2 = (Some a, s') \<and> a \<noteq> empty_dict
          \<longrightarrow> acc3 = acc1 @ [\<lparr>filename = file_name f, analysis = a\<rparr>])
    \<and> (acc3 = acc1 \<or>
         (\<exists>t a s'. tx = Some t \<and> t \<noteq> []
            \<and> get_jd_match_from_gemini rt job_description t s2 = (Some a, s') \<and> a \<noteq> empty_dict
            \<and> acc3 = acc1 @ [\<lparr>filename = file_name f, analysis = a\<rparr>]))
    \<and> results (evaluate_resumes rt job_description (earlier @ f # later) s) = Some acc4
    \<and> prefix acc3 acc4
    \<and> subseq (map filename acc4) (map file_name (earlier @ f # later))
    \<and> evaluate_resumes rt job_description (earlier @ f # later) (s\<lparr>results := old\<rparr>)
        = evaluate_resumes rt job_description (earlier @ f # later) s"
proof -
  let ?warn = "St_warning (''Could not extract text from: '' @ file_name f)"
  let ?start = "st (St_info (''Processing: '' @ file_name f)) s1"
  from get_file_text_score_requests [of rt f ?start] assms(3)
  have sent2: "score_requests s2 = score_requests s1" by simp
  have no_text: "acc3 = acc1 \<and> score_requests s3 = score_requests s1"
    if "tx = None \<or> tx = Some []"
  proof -
    from process_file_no_text [OF assms(3) that, of job_description acc1] assms(4)
    have "acc3 = acc1" "s3 = st ?warn s2" by simp_all
    with sent2 show ?thesis by simp
  qed
  have scored: "score_requests s3 = score_requests s1 @ [Score_request job_description t]"
    if t: "tx = Some t" "t \<noteq> []" for t
  proof -
    obtain a s' where j: "get_jd_match_from_gemini rt job_description t s2 = (a, s')"
      by (cases "get_jd_match_from_gemini rt job_description t s2")
    from get_jd_match_score_requests [of rt job_description t s2] j sent2
    have sent: "score_requests s' = score_requests s1 @ [Score_request job_description t]"
      by simp
    show ?thesis
    proof (cases "a = None \<or> a = Some empty_dict")
      case True
      from process_file_no_analysis [OF assms(3) [unfolded t(1)] t(2) j True, of acc1] assms(4) sent
      show ?thesis by simp
    next
      case False
      then obtain b where b: "a = Some b" "b \<noteq> empty_dict" by auto
      from process_file_success [OF assms(3) [unfolded t(1)] t(2) j [unfolded b(1)] b(2), of acc1]
        assms(4) sent
      show ?thesis by simp
    qed
  qed
  have no_analysis: "acc3 = acc1"
    if "tx = Some t" "t \<noteq> []" "get_jd_match_from_gemini rt job_description t s2 = (a, s')"
      "a = None \<or> a = Some empty_dict"
    for t a s'
    using process_file_no_analysis [OF assms(3) [unfolded that(1)] that(2,3,4), of acc1] assms(4)
    by simp
  have both: "acc3 = acc1 @ [\<lparr>filename = file_name f, analysis = a\<rparr>]"
    if "tx = Some t" "t \<noteq> []" "get_jd_match_from_gemini rt job_description t s2 = (Some a, s')"
      "a \<noteq> empty_dict"
    for t a s'
    using process_file_success [OF assms(3) [unfolded that(1)] that(2,3,4), of acc1] assms(4)
    by simp
  have contributes: "acc3 = acc1 \<or>
         (\<exists>t a s'. tx = Some t \<and> t \<noteq> []
            \<and> get_jd_match_from_gemini rt job_description t s2 = (Some a, s') \<and> a \<noteq> empty_dict
            \<and> acc3 = acc1 @ [\<lparr>filename = file_name f, analysis = a\<rparr>])"
  proof (cases rule: process_file_cases [of rt job_description f acc1 s1])
    case skipped
    with assms(4) show ?thesis by simp
  next
    case (appended t u a s')
    with assms(3,4) show ?thesis by auto
  qed
  have run: "process_files rt job_description (earlier @ f # later)
               ([], st (spinner (earlier @ f # later)) s) = (acc4, s4)"
    using assms(2,4,5) by (simp add: process_files_append)
  then have new: "results (evaluate_resumes rt job_description (earlier @ f # later) s) = Some acc4"
    using assms(1) by (simp add: evaluate_resumes_valid)
  from process_files_appends [of rt job_description later acc3 s3] assms(5)
  have later: "prefix acc3 acc4" by auto
  from process_files_appends [of rt job_description "earlier @ f # later" "[]"
      "st (spinner (earlier @ f # later)) s"] run
  have order: "subseq (map filename acc4) (map file_name (earlier @ f # later))" by auto
  have replaced: "evaluate_resumes rt job_description (earlier @ f # later) (s\<lparr>results := old\<rparr>)
        = evaluate_resumes rt job_description (earlier @ f # later) s"
    using assms(1) by (intro evaluate_resumes_replaces) simp_all
  show ?thesis
  proof (intro conjI allI impI)
    show "results (evaluate_resumes rt job_description (earlier @ f # later) s) = Some acc4"
      by (rule new)
    show "prefix acc3 acc4" by (rule later)
    show "subseq (map filename acc4) (map file_name (earlier @ f # later))" by (rule order)
    show "evaluate_resumes rt job_description (earlier @ f # later) (s\<lparr>results := old\<rparr>)
        = evaluate_resumes rt job_description (earlier @ f # later) s"
      by (rule replaced)
    show "acc3 = acc1 \<or>
         (\<exists>t a s'. tx = Some t \<and> t \<noteq> []
            \<and> get_jd_match_from_gemini rt job_description t s2 = (Some a, s') \<and> a \<noteq> empty_dict
            \<and> acc3 = acc1 @ [\<lparr>filename = file_name f, analysis = a\<rparr>])"
      by (rule contributes)
  qed (use no_text scored no_analysis both in blast)+
qed

theorem evaluation_run_witness:
  "fst (process_file demo_rt ''jd'' bad_pdf ([], demo_start)) = []
   \<and> score_requests (snd (process_file demo_rt ''jd'' bad_pdf ([], demo_start)))
       = score_requests demo_start
   \<and> fst (process_file demo_rt ''jd'' one_txt
           (process_files demo_rt ''jd'' [bad_pdf] ([], demo_start)))
       = [\<lparr>filename = ''one.txt'', analysis = analysis (candidate ''xx'' 80 ''Pune'')\<rparr>]
   \<and> score_requests (snd (process_file demo_rt ''jd'' one_txt
           (process_files demo_rt ''jd'' [bad_pdf] ([], demo_start))))
       = [Score_request ''jd'' ''xx'']
   \<and> fst (get_jd_match_from_gemini demo_rt ''jd'' ''{}''
           (snd (get_file_text demo_rt braces_txt
              (st (St_info (''Processing: '' @ file_name braces_txt))
                 (st (spinner [braces_txt]) demo_state)))))
       = Some empty_dict
   \<and> fst (process_file demo_rt ''jd'' braces_txt ([], st (spinner [braces_txt]) demo_state)) = []
   \<and> results (evaluate_resumes demo_rt ''jd'' [braces_txt] demo_state) = Some []
   \<and> fst (process_file demo_rt ''jd'' late_txt
        (process_files demo_rt ''jd'' [bad_pdf, one_txt, demo_file ''c.docx'' [7], demo_file ''d.png'' [1]]
           ([], demo_start)))
      = fst (process_files demo_rt ''jd'' [bad_pdf, one_txt, demo_file ''c.docx'' [7], demo_file ''d.png'' [1]]
           ([], demo_start))
   \<and> map filename (session_results (evaluate_resumes demo_rt ''jd'' demo_files demo_state))
       = [''one.txt'', ''c.docx'']
   \<and> evaluate_resumes demo_rt ''jd'' demo_files (demo_state\<lparr>results := None\<rparr>)
       = evaluate_resumes demo_rt ''jd'' demo_files demo_state"
proof -
  let ?rest = "[one_txt, demo_file ''c.docx'' [7], demo_file ''d.png'' [1], late_txt]"
  let ?four = "[bad_pdf, one_txt, demo_file ''c.docx'' [7], demo_file ''d.png'' [1]]"
  let ?info = "\<lambda>f. St_info (''Processing: '' @ file_name f)"
  have jd: "''jd'' \<noteq> []" by simp
  \<comment> \<open>the first file: its extraction raises\<close>
  have f1: "[] @ bad_pdf # ?rest = demo_files" by (simp add: demo_files_def)
  have s1: "st (spinner ([] @ bad_pdf # ?rest)) demo_state = demo_start"
    by (simp only: f1 demo_start_def)
  let ?g1 = "get_file_text demo_rt bad_pdf (st (?info bad_pdf) demo_start)"
  let ?p1 = "process_file demo_rt ''jd'' bad_pdf ([], demo_start)"
  let ?q1 = "process_files demo_rt ''jd'' ?rest ?p1"
  have a1: "process_files demo_rt ''jd'' []
      ([], st (spinner ([] @ bad_pdf # ?rest)) demo_state) = ([], demo_start)"
    by (simp only: s1 process_files_Nil)
  have "fst ?g1 = None" by code_simp
  then have g1: "?g1 = (None, snd ?g1)" by (simp add: prod_eq_iff)
  have p1: "?p1 = (fst ?p1, snd ?p1)" by simp
  have q1: "process_files demo_rt ''jd'' ?rest (fst ?p1, snd ?p1) = (fst ?q1, snd ?q1)" by simp
  note first = evaluation_run [OF jd a1 g1 p1 q1, where old = None, unfolded f1]
  from first have c1: "fst ?p1 = []" and c2: "score_requests (snd ?p1) = score_requests demo_start"
    by blast+
  from first have "results (evaluate_resumes demo_rt ''jd'' demo_files demo_state) = Some (fst ?q1)"
    by blast
  moreover have "map filename (fst ?q1) = [''one.txt'', ''c.docx'']" by code_simp
  ultimately have c5: "map filename (session_results (evaluate_resumes demo_rt ''jd'' demo_files demo_state))
       = [''one.txt'', ''c.docx'']"
    by (simp only: session_results_def option.case)
  from first have c6: "evaluate_resumes demo_rt ''jd'' demo_files (demo_state\<lparr>results := None\<rparr>)
       = evaluate_resumes demo_rt ''jd'' demo_files demo_state"
    by blast
  \<comment> \<open>the second file: both steps succeed\<close>
  have f2: "[bad_pdf] @ one_txt # tl ?rest = demo_files" by (simp add: demo_files_def)
  have s2: "st (spinner ([bad_pdf] @ one_txt # tl ?rest)) demo_state = demo_start"
    by (simp only: f2 demo_start_def)
  let ?b2 = "process_files demo_rt ''jd'' [bad_pdf] ([], demo_start)"
  let ?g2 = "get_file_text demo_rt one_txt (st (?info one_txt) (snd ?b2))"
  let ?p2 = "process_file demo_rt ''jd'' one_txt ?b2"
  let ?q2 = "process_files demo_rt ''jd'' (tl ?rest) ?p2"
  have a2: "process_files demo_rt ''jd'' [bad_pdf]
      ([], st (spinner ([bad_pdf] @ one_txt # tl ?rest)) demo_state) = (fst ?b2, snd ?b2)"
    by (simp only: s2 prod.collapse)
  have g2: "?g2 = (fst ?g2, snd ?g2)" by simp
  have p2: "process_file demo_rt ''jd'' one_txt (fst ?b2, snd ?b2) = (fst ?p2, snd ?p2)" by simp
  have q2: "process_files demo_rt ''jd'' (tl ?rest) (fst ?p2, snd ?p2) = (fst ?q2, snd ?q2)" by simp
  note second = evaluation_run [OF jd a2 g2 p2 q2, where old = None]
  have b2: "fst ?b2 = []" by code_simp
  have "fst ?g2 = Some ''xx''" by code_simp
  then have g2': "?g2 = (Some ''xx'', snd ?g2)" by (simp add: prod_eq_iff)
  let ?j2 = "get_jd_match_from_gemini demo_rt ''jd'' ''xx'' (snd ?g2)"
  have "fst ?j2 = Some (analysis (candidate ''xx'' 80 ''Pune''))" by code_simp
  then have j2: "?j2 = (Some (analysis (candidate ''xx'' 80 ''Pune'')), snd ?j2)"
    by (simp add: prod_eq_iff)
  have ne2: "analysis (candidate ''xx'' 80 ''Pune'') \<noteq> empty_dict"
    by (simp add: candidate_def empty_dict_def)
  have xx: "''xx'' \<noteq> []" by simp
  note second = evaluation_run [OF jd a2 g2' p2 q2, where old = None]
  have name2: "file_name one_txt = ''one.txt''" by (simp add: one_txt_def demo_file_def)
  from second
  have "\<forall>t a s'. Some ''xx'' = Some t \<and> t \<noteq> []
        \<and> get_jd_match_from_gemini demo_rt ''jd'' t (snd ?g2) = (Some a, s') \<and> a \<noteq> empty_dict
      \<longrightarrow> fst ?p2 = fst ?b2 @ [\<lparr>filename = file_name one_txt, analysis = a\<rparr>]"
    by (elim conjE)
  from this [rule_format, of "''xx''" "analysis (candidate ''xx'' 80 ''Pune'')" "snd ?j2"] j2 ne2 xx
  have "fst ?p2 = fst ?b2 @ [\<lparr>filename = file_name one_txt,
      analysis = analysis (candidate ''xx'' 80 ''Pune'')\<rparr>]"
    by simp
  then have c3: "fst ?p2 = [\<lparr>filename = ''one.txt'',
      analysis = analysis (candidate ''xx'' 80 ''Pune'')\<rparr>]"
    by (simp only: b2 name2 append_Nil)
  have "score_requests (snd ?b2) = []" by code_simp
  moreover from second
  have "\<forall>t. Some ''xx'' = Some t \<and> t \<noteq> []
      \<longrightarrow> score_requests (snd ?p2) = score_requests (snd ?b2) @ [Score_request ''jd'' t]"
    by (elim conjE)
  with xx have "score_requests (snd ?p2) = score_requests (snd ?b2) @ [Score_request ''jd'' ''xx'']"
    by simp
  ultimately have c3': "score_requests (snd ?p2) = [Score_request ''jd'' ''xx'']"
    by (simp only: append_Nil)
  \<comment> \<open>a file whose reply is the dictionary without keys\<close>
  let ?s7 = "st (spinner ([] @ braces_txt # [])) demo_state"
  let ?g7 = "get_file_text demo_rt braces_txt (st (?info braces_txt) ?s7)"
  let ?p7 = "process_file demo_rt ''jd'' braces_txt ([], ?s7)"
  let ?j7 = "get_jd_match_from_gemini demo_rt ''jd'' ''{}'' (snd ?g7)"
  have a7: "process_files demo_rt ''jd'' [] ([], ?s7) = ([], ?s7)" by simp
  have "fst ?g7 = Some ''{}''" by code_simp
  then have g7: "?g7 = (Some ''{}'', snd ?g7)" by (simp add: prod_eq_iff)
  have p7: "?p7 = (fst ?p7, snd ?p7)" by simp
  have q7: "process_files demo_rt ''jd'' [] (fst ?p7, snd ?p7) = (fst ?p7, snd ?p7)" by simp
  have j7: "fst ?j7 = Some empty_dict" by code_simp
  then have j7': "?j7 = (Some empty_dict, snd ?j7)" by (simp add: prod_eq_iff)
  have br: "''{}'' \<noteq> []" by simp
  note braces = evaluation_run [OF jd a7 g7 p7 q7, where old = None]
  from braces
  have "\<forall>t s'. Some ''{}'' = Some t \<and> t \<noteq> []
        \<and> get_jd_match_from_gemini demo_rt ''jd'' t (snd ?g7) = (Some empty_dict, s')
      \<longrightarrow> fst ?p7 = []"
    by (elim conjE)
  from this [rule_format, of "''{}''" "snd ?j7"] j7' br have "fst ?p7 = []" by simp
  moreover from braces
  have "results (evaluate_resumes demo_rt ''jd'' ([] @ braces_txt # []) demo_state) = Some (fst ?p7)"
    by (elim conjE)
  ultimately have c7: "fst ?p7 = []"
    and c8: "results (evaluate_resumes demo_rt ''jd'' ([] @ braces_txt # []) demo_state) = Some []"
    by simp_all
  \<comment> \<open>the last file: its text is read and the scorer raises\<close>
  have f5: "?four @ late_txt # [] = demo_files" by (simp add: demo_files_def)
  have s5: "st (spinner (?four @ late_txt # [])) demo_state = demo_start"
    by (simp only: f5 demo_start_def)
  let ?b5 = "process_files demo_rt ''jd'' ?four ([], demo_start)"
  let ?g5 = "get_file_text demo_rt late_txt (st (?info late_txt) (snd ?b5))"
  let ?p5 = "process_file demo_rt ''jd'' late_txt ?b5"
  let ?j5 = "get_jd_match_from_gemini demo_rt ''jd'' ''x'' (snd ?g5)"
  have a5: "process_files demo_rt ''jd'' ?four
      ([], st (spinner (?four @ late_txt # [])) demo_state) = (fst ?b5, snd ?b5)"
    by (simp only: s5 prod.collapse)
  have "fst ?g5 = Some ''x''" by code_simp
  then have g5: "?g5 = (Some ''x'', snd ?g5)" by (simp add: prod_eq_iff)
  have p5: "process_file demo_rt ''jd'' late_txt (fst ?b5, snd ?b5) = (fst ?p5, snd ?p5)" by simp
  have q5: "process_files demo_rt ''jd'' [] (fst ?p5, snd ?p5) = (fst ?p5, snd ?p5)" by simp
  have "fst ?j5 = None" by code_simp
  then have j5: "?j5 = (None, snd ?j5)" by (simp add: prod_eq_iff)
  note last = evaluation_run [OF jd a5 g5 p5 q5, where old = None]
  have "''x'' \<noteq> []" by simp
  with last j5 have c4: "fst ?p5 = fst ?b5" by blast
  from c7 have c7': "fst (process_file demo_rt ''jd'' braces_txt
      ([], st (spinner [braces_txt]) demo_state)) = []"
    by simp
  from c8 have c8': "results (evaluate_resumes demo_rt ''jd'' [braces_txt] demo_state) = Some []"
    by simp
  from j7 have j7'': "fst (get_jd_match_from_gemini demo_rt ''jd'' ''{}''
           (snd (get_file_text demo_rt braces_txt
              (st (St_info (''Processing: '' @ file_name braces_txt))
                 (st (spinner [braces_txt]) demo_state)))))
       = Some empty_dict"
    by simp
  from c1 c2 c3 c3' j7'' c7' c8' c4 c5 c6 show ?thesis by (intro conjI)
qed

subsection \<open>The script\<close>

lemma render_result_fields [simp]:
  "world (render_result r s) = world s"
  "requests (render_result r s) = requests s"
  "results (render_result r s) = results s"
  by (simp_all add: render_result_def Let_def)

lemma render_all_fields [simp]:
  "world (foldl (\<lambda>s r. render_result r s) s rs) = world s"
  "requests (foldl (\<lambda>s r. render_result r s) s rs) = requests s"
  "results (foldl (\<lambda>s r. render_result r s) s rs) = results s"
  by (induction rs arbitrary: s) simp_all

lemma render_result_ui: "prefix (ui s) (ui (render_result r s))"
  by (simp add: render_result_def Let_def)

lemma render_all_ui: "prefix (ui s) (ui (foldl (\<lambda>s r. render_result r s) s rs))"
proof (induction rs arbitrary: s)
  case Nil
  show ?case by simp
next
  case (Cons r rs)
  from render_result_ui [of s r] Cons.IH [of "render_result r s"] show ?case
    by (auto intro: prefix_order.trans)
qed

lemma view_fields [simp]:
  "world (view rt inp s) = world s"
  "requests (view rt inp s) = requests s"
  "results (view rt inp s) = results s"
  by (simp_all add: view_def Let_def)

lemma header_fields [simp]:
  "world (header s) = world s"
  "requests (header s) = requests s"
  "session_results (header s) = session_results s"
  "ui (header s) = ui s @ [St_title ''AI Resume Screener'',
     St_markdown ''Evaluate multiple resumes against a job description to find the best candidates.'',
     St_divider]"
  by (simp_all add: header_def Let_def session_results_def)

lemma header_results: "results s \<noteq> None \<Longrightarrow> results (header s) = results s"
  by (simp add: header_def Let_def)

lemma session_results_ui [simp]: "session_results (s\<lparr>ui := u\<rparr>) = session_results s"
  by (simp add: session_results_def)

lemma session_results_view [simp]: "session_results (view rt inp s) = session_results s"
  by (simp add: session_results_def)

lemma evaluate_resumes_invalid:
  assumes "jd = [] \<or> fs = []"
  shows "evaluate_resumes rt jd fs s
           = st (St_warning ''Please provide a job description and upload at least one resume.'') s"
  using assms by (auto simp: evaluate_resumes_def)

lemma sidebar_not_pressed:
  assumes "\<not> in_button inp"
  shows "world (sidebar rt inp s) = world s" "requests (sidebar rt inp s) = requests s"
    "results (sidebar rt inp s) = results s"
  using assms by (simp_all add: sidebar_def Let_def)

lemma app_not_pressed:
  assumes "\<not> in_button inp"
  shows "session_results (app rt inp s) = session_results s"
    and "world (app rt inp s) = world s"
    and "requests (app rt inp s) = requests s"
proof -
  have "session_results (sidebar rt inp s0) = session_results s0" for s0 :: "'a state"
    using assms by (simp add: session_results_def sidebar_not_pressed)
  then show "session_results (app rt inp s) = session_results s"
    by (simp add: app_def Let_def split: option.splits)
  show "world (app rt inp s) = world s" "requests (app rt inp s) = requests s"
    using assms by (simp_all add: app_def Let_def sidebar_not_pressed split: option.splits)
qed

text \<open>A property of names that holds for the results of the session and for every result the
  loop can append holds for the results of the session after any runs of the script.\<close>

lemma evaluate_resumes_names:
  assumes "\<forall>r \<in> set (session_results s). P (filename r)"
    and "\<And>r s'. r \<in> set (fst (process_files rt jd fs ([], s'))) \<Longrightarrow> P (filename r)"
  shows "\<forall>r \<in> set (session_results (evaluate_resumes rt jd fs s)). P (filename r)"
proof (cases "jd \<noteq> [] \<and> fs \<noteq> []")
  case True
  then show ?thesis
    using assms(2) by (simp add: evaluate_resumes_valid session_results_def)
next
  case False
  then show ?thesis
    using assms(1) by (simp add: evaluate_resumes_invalid)
qed

lemma sidebar_names:
  assumes "\<forall>r \<in> set (session_results s). P (filename r)"
    and "\<And>r jd fs s'. r \<in> set (fst (process_files rt jd fs ([], s'))) \<Longrightarrow> P (filename r)"
  shows "\<forall>r \<in> set (session_results (sidebar rt inp s)). P (filename r)"
proof (cases "in_button inp")
  case False
  with assms(1) show ?thesis
    by (simp add: session_results_def sidebar_not_pressed)
next
  case True
  let ?s = "st (St_button ''Evaluate Resumes'')
     (st (St_file_uploader ''Choose resume files'')
        (st (St_subheader ''2. Upload Resumes'')
           (st (St_text_area ''Paste the Job Description'')
              (st (St_subheader ''1. Enter Details'') s))))"
  from assms(1) have "\<forall>r \<in> set (session_results ?s). P (filename r)" by simp
  then have "\<forall>r \<in> set (session_results (evaluate_resumes rt (in_job_description inp)
      (in_uploaded_files inp) ?s)). P (filename r)"
    by (rule evaluate_resumes_names) (rule assms(2))
  with True show ?thesis by (simp add: sidebar_def Let_def)
qed

lemma app_names:
  assumes "\<forall>r \<in> set (session_results s). P (filename r)"
    and "\<And>r jd fs s'. r \<in> set (fst (process_files rt jd fs ([], s'))) \<Longrightarrow> P (filename r)"
  shows "\<forall>r \<in> set (session_results (app rt inp s)). P (filename r)"
proof -
  from assms(1) have "\<forall>r \<in> set (session_results (header (s\<lparr>ui := []\<rparr>))). P (filename r)"
    by simp
  then have "\<forall>r \<in> set (session_results (sidebar rt inp (header (s\<lparr>ui := []\<rparr>)))). P (filename r)"
    by (rule sidebar_names) (rule assms(2))
  with assms(1) show ?thesis
    by (simp add: app_def Let_def split: option.splits)
qed

lemma reruns_names:
  assumes "\<forall>r \<in> set (session_results s). P (filename r)"
    and "\<And>r jd fs s'. r \<in> set (fst (process_files rt jd fs ([], s'))) \<Longrightarrow> P (filename r)"
  shows "\<forall>r \<in> set (session_results (reruns rt inps s)). P (filename r)"
  using assms(1)
proof (induction inps arbitrary: s)
  case Nil
  then show ?case by (simp add: reruns_def)
next
  case (Cons inp inps)
  from Cons.prems have "\<forall>r \<in> set (session_results (app rt inp s)). P (filename r)"
    by (rule app_names) (rule assms(2))
  from Cons.IH [OF this] show ?case by (simp add: reruns_def)
qed

lemma reruns_not_pressed:
  assumes "\<forall>inp \<in> set inps. \<not> in_button inp"
  shows "session_results (reruns rt inps s) = session_results s
       \<and> world (reruns rt inps s) = world s \<and> requests (reruns rt inps s) = requests s"
  using assms
proof (induction inps arbitrary: s)
  case Nil
  then show ?case by (simp add: reruns_def)
next
  case (Cons inp inps)
  then have "\<not> in_button inp" and rest: "\<forall>inp \<in> set inps. \<not> in_button inp" by simp_all
  from app_not_pressed [OF this(1), of rt s] Cons.IH [OF rest, of "app rt inp s"]
  show ?case by (simp add: reruns_def)
qed

subsection \<open>Rejected runs, unsupported files and empty texts\<close>

text \<open>
  Claim C5. When the job description is empty or no file is uploaded, pressing the button does
  nothing but write the validation warning: the result set, the outside world and the log of
  requests are what they were.
\<close>

theorem validation_rejects:
  assumes "job_description = [] \<or> uploaded_files = []"
  shows "evaluate_resumes rt job_description uploaded_files s
           = st (St_warning ''Please provide a job description and upload at least one resume.'') s
    \<and> results (evaluate_resumes rt job_description uploaded_files s) = results s
    \<and> world (evaluate_resumes rt job_description uploaded_files s) = world s
    \<and> requests (evaluate_resumes rt job_description uploaded_files s) = requests s
    \<and> ui (evaluate_resumes rt job_description uploaded_files s)
        = ui s @ [St_warning ''Please provide a job description and upload at least one resume.'']"
  using assms by (simp add: evaluate_resumes_invalid)

theorem validation_rejects_witness:
  "evaluate_resumes demo_rt [] demo_files demo_state
     = st (St_warning ''Please provide a job description and upload at least one resume.'') demo_state
   \<and> results (evaluate_resumes demo_rt [] demo_files demo_state) = Some [result_B]
   \<and> results (evaluate_resumes demo_rt ''jd'' [] demo_state) = Some [result_B]
   \<and> requests (evaluate_resumes demo_rt ''jd'' [] demo_state) = []"
proof -
  have "([]::string) = [] \<or> demo_files = []" "''jd'' = [] \<or> ([]::uploaded_file list) = []"
    by simp_all
  from validation_rejects [OF this(1), of demo_rt demo_state]
    validation_rejects [OF this(2), of demo_rt demo_state]
  show ?thesis by (simp add: demo_state_def)
qed

text \<open>
  Claim C6. Take a file whose extension (what follows the last dot of its name, lowered) is none
  of pdf, docx, txt, png, jpg, jpeg. No branch of \<^verbatim>\<open>get_file_text\<close> reads it: the text is
  the empty string, which the loop takes for a failed extraction. The loop writes its warning,
  sends no request at all for the file and appends nothing; no result of any run of the loop
  carries the name of the file; and when no result of the session carries it, none does after
  any sequence of runs of the script.
\<close>

theorem unsupported_extension_never_scored:
  assumes "file_extension rt (file_name f) \<notin> set [''pdf'', ''docx'', ''txt'', ''png'', ''jpg'', ''jpeg'']"
  shows "get_file_text rt f s = (Some [], s)
    \<and> process_file rt job_description f (acc, s)
        = (acc, st (St_warning (''Could not extract text from: '' @ file_name f))
                  (st (St_info (''Processing: '' @ file_name f)) s))
    \<and> requests (snd (process_file rt job_description f (acc, s))) = requests s
    \<and> (\<forall>r \<in> set (fst (process_files rt job_description uploaded_files ([], s))).
          filename r \<noteq> file_name f)
    \<and> ((\<forall>r \<in> set (session_results s). filename r \<noteq> file_name f) \<longrightarrow>
          (\<forall>r \<in> set (session_results (reruns rt inps s)). filename r \<noteq> file_name f))"
proof -
  let ?s = "st (St_info (''Processing: '' @ file_name f)) s"
  have empty: "get_file_text rt f s0 = (Some [], s0)" for s0 :: "'a state"
    using assms by (rule get_file_text_unsupported)
  from process_file_no_text [OF empty [of ?s], of job_description acc]
  have body: "process_file rt job_description f (acc, s)
        = (acc, st (St_warning (''Could not extract text from: '' @ file_name f)) ?s)"
    by simp
  have loop: "filename r \<noteq> file_name f"
    if "r \<in> set (fst (process_files rt jd fs ([], s')))" for r jd fs and s' :: "'a state"
  proof
    assume "filename r = file_name f"
    moreover from process_files_supported [OF that]
    have "file_extension rt (filename r) \<in> set [''pdf'', ''docx'', ''txt'', ''png'', ''jpg'', ''jpeg'']"
      by simp
    ultimately show False using assms by simp
  qed
  have session: "\<forall>r \<in> set (session_results (reruns rt inps s)). filename r \<noteq> file_name f"
    if "\<forall>r \<in> set (session_results s). filename r \<noteq> file_name f"
    using that by (rule reruns_names) (rule loop)
  from empty [of s] body loop session show ?thesis by simp
qed

theorem unsupported_extension_never_scored_witness:
  "get_file_text demo_rt csv_file demo_state = (Some [], demo_state)
   \<and> fst (process_file demo_rt ''jd'' csv_file ([], demo_state)) = []
   \<and> requests (snd (process_file demo_rt ''jd'' csv_file ([], demo_state))) = []
   \<and> result_B \<in> set (session_results demo_state)
   \<and> filename result_B \<noteq> file_name csv_file"
proof -
  have "file_extension demo_rt (file_name csv_file)
          \<notin> set [''pdf'', ''docx'', ''txt'', ''png'', ''jpg'', ''jpeg'']"
    by code_simp
  from unsupported_extension_never_scored [OF this, of demo_state "''jd''" "[]"]
  have "get_file_text demo_rt csv_file demo_state = (Some [], demo_state)"
    and "fst (process_file demo_rt ''jd'' csv_file ([], demo_state)) = []"
    and "requests (snd (process_file demo_rt ''jd'' csv_file ([], demo_state))) = requests demo_state"
    by simp_all
  moreover have "requests demo_state = []" "result_B \<in> set (session_results demo_state)"
    by (simp_all add: demo_state_def session_results_def)
  moreover have "filename result_B \<noteq> file_name csv_file"
    by (simp add: result_B_def candidate_def csv_file_def demo_file_def)
  ultimately show ?thesis by simp
qed

text \<open>
  Claim C10. When extraction of a file returns the empty string, the loop sends no request to
  the scorer, appends nothing and writes the warning it writes after a failed extraction: the
  last conjunct is the same equation for an extraction that raised.
\<close>

theorem empty_text_skipped:
  assumes "get_file_text rt f (st (St_info (''Processing: '' @ file_name f)) s) = (Some [], s2)"
  shows "process_file rt job_description f (acc, s)
           = (acc, st (St_warning (''Could not extract text from: '' @ file_name f)) s2)
    \<and> score_requests (snd (process_file rt job_description f (acc, s))) = score_requests s
    \<and> fst (process_file rt job_description f (acc, s)) = acc
    \<and> (\<forall>g s' s2'. get_file_text rt g (st (St_info (''Processing: '' @ file_name g)) s') = (None, s2')
          \<longrightarrow> process_file rt job_description g (acc, s')
                = (acc, st (St_warning (''Could not extract text from: '' @ file_name g)) s2'))"
proof -
  from process_file_no_text [OF assms, of job_description acc]
  have body: "process_file rt job_description f (acc, s)
           = (acc, st (St_warning (''Could not extract text from: '' @ file_name f)) s2)"
    by simp
  from get_file_text_score_requests [of rt f "st (St_info (''Processing: '' @ file_name f)) s"] assms
  have "score_requests s2 = score_requests s" by simp
  with body have "score_requests (snd (process_file rt job_description f (acc, s))) = score_requests s"
    by simp
  moreover have "process_file rt job_description g (acc, s')
                = (acc, st (St_warning (''Could not extract text from: '' @ file_name g)) s2')"
    if "get_file_text rt g (st (St_info (''Processing: '' @ file_name g)) s') = (None, s2')"
    for g s' s2'
    using process_file_no_text [OF that, of job_description acc] by simp
  ultimately show ?thesis using body by simp
qed

theorem empty_text_skipped_witness:
  "get_file_text demo_rt empty_txt (st (St_info (''Processing: '' @ file_name empty_txt)) demo_state)
     = (Some [], st (St_info (''Processing: '' @ file_name empty_txt)) demo_state)
   \<and> fst (process_file demo_rt ''jd'' empty_txt ([result_A], demo_state)) = [result_A]
   \<and> score_requests (snd (process_file demo_rt ''jd'' empty_txt ([result_A], demo_state)))
       = score_requests demo_state"
proof -
  let ?s = "st (St_info (''Processing: '' @ file_name empty_txt)) demo_state"
  have "fst (get_file_text demo_rt empty_txt ?s) = Some []" by code_simp
  moreover have "snd (get_file_text demo_rt empty_txt ?s) = ?s"
    by (simp add: get_file_text_def file_extension_def demo_rt_def empty_txt_def demo_file_def
        str_split_def ascii_lower_def ascii_lower_char_def)
  ultimately have g: "get_file_text demo_rt empty_txt ?s = (Some [], ?s)"
    by (simp add: prod_eq_iff)
  from empty_text_skipped [OF g, of "''jd''" "[result_A]"] g show ?thesis by simp
qed

subsection \<open>The text of a docx\<close>

lemma paragraph_texts_concat:
  "paragraph_texts t ps = t @ concat (map (\<lambda>p. p @ [CHR 0x0A]) ps)"
  unfolding paragraph_texts_def by (induction ps arbitrary: t) simp_all

lemma separated_then_newline:
  "ps \<noteq> [] \<Longrightarrow> concat (map (\<lambda>p. p @ [CHR 0x0A]) ps) = separated_by_newline ps @ [CHR 0x0A]"
  by (induction ps rule: separated_by_newline.induct) simp_all

text \<open>
  Claim C7 as stated does not hold. The file \<open>cv_docx\<close> opens as a document of the two
  paragraphs \<open>a\<close> and \<open>b\<close>. Separated by a newline they read \<open>a\<close>, newline, \<open>b\<close>; the script
  returns \<open>a\<close>, newline, \<open>b\<close>, newline.
\<close>

theorem docx_text_counterexample:
  "file_extension demo_rt (file_name cv_docx) = ''docx''
   \<and> docx_Document demo_rt (file_bytes cv_docx) = Inr [''a'', ''b'']
   \<and> fst (get_file_text demo_rt cv_docx demo_state) = Some [CHR ''a'', CHR 0x0A, CHR ''b'', CHR 0x0A]
   \<and> separated_by_newline [''a'', ''b''] = [CHR ''a'', CHR 0x0A, CHR ''b'']
   \<and> fst (get_file_text demo_rt cv_docx demo_state) \<noteq> Some (separated_by_newline [''a'', ''b''])"
  by (simp add: get_file_text_def file_extension_def demo_rt_def cv_docx_def demo_file_def
      str_split_def ascii_lower_def ascii_lower_char_def paragraph_texts_def)

text \<open>
  Claim C7, amended. For a file with the extension docx that opens as a document, the
  extracted text is the texts of the paragraphs in document order, each followed by a newline:
  for a document with a paragraph, the paragraphs separated by newlines and then one more
  newline. The state is unchanged.
\<close>

theorem docx_text_terminated:
  assumes "file_extension rt (file_name f) = ''docx''"
    and "docx_Document rt (file_bytes f) = Inr paragraphs"
  shows "get_file_text rt f s = (Some (concat (map (\<lambda>p. p @ [CHR 0x0A]) paragraphs)), s)
    \<and> (paragraphs \<noteq> [] \<longrightarrow>
         get_file_text rt f s = (Some (separated_by_newline paragraphs @ [CHR 0x0A]), s))"
proof -
  from assms have "get_file_text rt f s = (Some (paragraph_texts [] paragraphs), s)"
    by (simp add: get_file_text_def)
  then have "get_file_text rt f s = (Some (concat (map (\<lambda>p. p @ [CHR 0x0A]) paragraphs)), s)"
    by (simp add: paragraph_texts_concat)
  then show ?thesis by (simp add: separated_then_newline)
qed

theorem docx_text_terminated_witness:
  "file_extension demo_rt (file_name cv_docx) = ''docx''
   \<and> docx_Document demo_rt (file_bytes cv_docx) = Inr [''a'', ''b'']
   \<and> get_file_text demo_rt cv_docx demo_state
       = (Some [CHR ''a'', CHR 0x0A, CHR ''b'', CHR 0x0A], demo_state)"
proof -
  have e: "file_extension demo_rt (file_name cv_docx) = ''docx''" by code_simp
  have d: "docx_Document demo_rt (file_bytes cv_docx) = Inr [''a'', ''b'']"
    by (simp add: demo_rt_def cv_docx_def demo_file_def)
  from docx_text_terminated [OF e d, of demo_state] e d show ?thesis by simp
qed

section \<open>Properties of the script\<close>

subsection \<open>Export\<close>

lemma export_row_of_columns:
  "map fst (export_row_of r) = [''Name'', ''Email'', ''Phone'', ''Score'', ''Location'', ''Filename'']"
  by (simp add: export_row_of_def Let_def)

lemma view_offers_export:
  assumes "displayed = sorted_results (filter_results (str_lower rt) (in_target_location inp)
             (in_min_score inp) (session_results s))"
    and "displayed \<noteq> []"
  shows "St_download_button (export_data displayed) \<in> set (ui (view rt inp s))"
proof -
  let ?s = "st (St_success (''Displaying '' @ str_int (int (length displayed))
              @ '' matching candidate(s).''))
     (st St_divider (st (St_download_button (export_data displayed))
        (st (St_number_input ''Minimum Match Score'') (st (St_text_input ''Filter by Location'')
          (st (St_markdown ''#### Filter Your Results'')
             (st (St_subheader ''3. Screening Evaluation'') s))))))"
  from assms have rs: "session_results s \<noteq> []"
    by (auto simp: sorted_results_def sorted_py_def filter_results_def)
  with assms have "view rt inp s = foldl (\<lambda>s result. render_result result s) ?s displayed"
    by (simp add: view_def Let_def)
  moreover have "St_download_button (export_data displayed) \<in> set (ui ?s)" by simp
  ultimately show ?thesis
    using set_mono_prefix [OF render_all_ui [of ?s displayed]] by auto
qed

text \<open>
  Claim C4. The table of the export has one row for each displayed result, in the order of the
  display; the row of a result has the columns Name, Email, Phone, Score, Location and Filename,
  in this order and no other; its cells are the fields of the analysis and the file name, with
  \<open>N/A\<close> for a text field the analysis lacks and 0 for a score it lacks. The page offers this
  table of the displayed list (the filtered and sorted result set) for download whenever the
  list is not empty.
\<close>

theorem export_rows:
  "length (export_data displayed) = length displayed
   \<and> (\<forall>i < length displayed. export_data displayed ! i =
        [(''Name'', Str (case name (analysis (displayed ! i)) of None \<Rightarrow> ''N/A'' | Some v \<Rightarrow> v)),
         (''Email'', Str (case email (analysis (displayed ! i)) of None \<Rightarrow> ''N/A'' | Some v \<Rightarrow> v)),
         (''Phone'', Str (case phone (analysis (displayed ! i)) of None \<Rightarrow> ''N/A'' | Some v \<Rightarrow> v)),
         (''Score'', Num (case score (analysis (displayed ! i)) of None \<Rightarrow> 0 | Some n \<Rightarrow> n)),
         (''Location'', Str (case location (analysis (displayed ! i)) of None \<Rightarrow> ''N/A'' | Some v \<Rightarrow> v)),
         (''Filename'', Str (filename (displayed ! i)))])
   \<and> (\<forall>row \<in> set (export_data displayed).
         map fst row = [''Name'', ''Email'', ''Phone'', ''Score'', ''Location'', ''Filename''])
   \<and> (displayed = sorted_results (filter_results (str_lower rt) (in_target_location inp)
             (in_min_score inp) (session_results s)) \<and> displayed \<noteq> []
        \<longrightarrow> St_download_button (export_data displayed) \<in> set (ui (view rt inp s)))"
proof -
  have "export_data displayed ! i = export_row_of (displayed ! i)" if "i < length displayed" for i
    using that by (simp add: export_data_map)
  then show ?thesis
    using view_offers_export [of displayed rt inp s]
    by (auto simp: export_data_map export_row_of_columns export_row_of_def Let_def get_def)
qed

theorem export_rows_witness:
  "export_data [result_B, result_D] =
     [[(''Name'', Str ''B''), (''Email'', Str ''N/A''), (''Phone'', Str ''555-0100''),
       (''Score'', Num 60), (''Location'', Str ''Hyderabad''), (''Filename'', Str ''B.pdf'')],
      [(''Name'', Str ''D''), (''Email'', Str ''d@example.org''), (''Phone'', Str ''N/A''),
       (''Score'', Num 0), (''Location'', Str ''N/A''), (''Filename'', Str ''D.txt'')]]"
proof -
  let ?d = "[result_B, result_D]"
  note rows = export_rows [of ?d demo_rt demo_inputs demo_state]
  from rows have len: "length (export_data ?d) = length ?d" by (rule conjunct1)
  from rows have at: "\<forall>i < length ?d. export_data ?d ! i =
        [(''Name'', Str (case name (analysis (?d ! i)) of None \<Rightarrow> ''N/A'' | Some v \<Rightarrow> v)),
         (''Email'', Str (case email (analysis (?d ! i)) of None \<Rightarrow> ''N/A'' | Some v \<Rightarrow> v)),
         (''Phone'', Str (case phone (analysis (?d ! i)) of None \<Rightarrow> ''N/A'' | Some v \<Rightarrow> v)),
         (''Score'', Num (case score (analysis (?d ! i)) of None \<Rightarrow> 0 | Some n \<Rightarrow> n)),
         (''Location'', Str (case location (analysis (?d ! i)) of None \<Rightarrow> ''N/A'' | Some v \<Rightarrow> v)),
         (''Filename'', Str (filename (?d ! i)))]"
    by (rule conjunct2 [THEN conjunct1])
  from at [rule_format, of 0] have r0: "export_data ?d ! 0 =
       [(''Name'', Str ''B''), (''Email'', Str ''N/A''), (''Phone'', Str ''555-0100''),
        (''Score'', Num 60), (''Location'', Str ''Hyderabad''), (''Filename'', Str ''B.pdf'')]"
    by (simp add: result_B_def candidate_def)
  from at [rule_format, of 1] have r1: "export_data ?d ! 1 =
       [(''Name'', Str ''D''), (''Email'', Str ''d@example.org''), (''Phone'', Str ''N/A''),
        (''Score'', Num 0), (''Location'', Str ''N/A''), (''Filename'', Str ''D.txt'')]"
    by (simp add: result_D_def empty_dict_def)
  from len obtain x y where xy: "export_data ?d = [x, y]"
    by (auto simp: length_Suc_conv)
  with r0 r1 show ?thesis by simp
qed

subsection \<open>A missing key\<close>

text \<open>
  Claim C8. When the key is not among the secrets, a run writes the title, the introduction, a
  divider and the error with the setup instruction, and stops: no widget is on the page, nothing
  is sent to the outside, the result set is as it was, and the run is the same whatever the
  other inputs are, the pressed button included.
\<close>

theorem missing_api_key_halts:
  assumes "in_secrets inp ''GOOGLE_API_KEY'' = None"
  shows "ui (app rt inp s) =
      [St_title ''AI Resume Screener'',
       St_markdown ''Evaluate multiple resumes against a job description to find the best candidates.'',
       St_divider,
       St_error ''**API Key Not Found!** Please add your GOOGLE_API_KEY to the secrets.toml file.'']
    \<and> (\<forall>e \<in> set (ui (app rt inp s)). \<not> is_widget e)
    \<and> world (app rt inp s) = world s
    \<and> requests (app rt inp s) = requests s
    \<and> session_results (app rt inp s) = session_results s
    \<and> (\<forall>inp'. in_secrets inp' ''GOOGLE_API_KEY'' = None \<longrightarrow> app rt inp' s = app rt inp s)"
  using assms by (simp add: app_def Let_def)

theorem missing_api_key_halts_witness:
  "in_secrets no_key_inputs ''GOOGLE_API_KEY'' = None
   \<and> in_button no_key_inputs
   \<and> ui (app demo_rt no_key_inputs demo_state) =
      [St_title ''AI Resume Screener'',
       St_markdown ''Evaluate multiple resumes against a job description to find the best candidates.'',
       St_divider,
       St_error ''**API Key Not Found!** Please add your GOOGLE_API_KEY to the secrets.toml file.'']
   \<and> requests (app demo_rt no_key_inputs demo_state) = []
   \<and> session_results (app demo_rt no_key_inputs demo_state) = [result_B]"
proof -
  have k: "in_secrets no_key_inputs ''GOOGLE_API_KEY'' = None"
    and b: "in_button no_key_inputs"
    by (simp_all add: no_key_inputs_def)
  note halt = missing_api_key_halts [OF k, of demo_rt demo_state]
  from halt have "ui (app demo_rt no_key_inputs demo_state) =
      [St_title ''AI Resume Screener'',
       St_markdown ''Evaluate multiple resumes against a job description to find the best candidates.'',
       St_divider,
       St_error ''**API Key Not Found!** Please add your GOOGLE_API_KEY to the secrets.toml file.'']"
    by (rule conjunct1)
  moreover from halt have "requests (app demo_rt no_key_inputs demo_state) = requests demo_state"
    and "session_results (app demo_rt no_key_inputs demo_state) = session_results demo_state"
    by blast+
  moreover have "requests demo_state = []" "session_results demo_state = [result_B]"
    by (simp_all add: demo_state_def session_results_def)
  ultimately show ?thesis using k b by simp
qed

subsection \<open>The view leaves the result set alone\<close>

lemma app_not_pressed_results:
  assumes "\<not> in_button inp" and "results s \<noteq> None"
  shows "results (app rt inp s) = results s"
  using assms
  by (simp add: app_def Let_def header_results sidebar_not_pressed split: option.splits)

lemma reruns_not_pressed_results:
  assumes "\<forall>inp \<in> set inps. \<not> in_button inp" and "results s \<noteq> None"
  shows "results (reruns rt inps s) = results s"
  using assms
proof (induction inps arbitrary: s)
  case Nil
  then show ?case by (simp add: reruns_def)
next
  case (Cons inp inps)
  then have a: "results (app rt inp s) = results s" by (simp add: app_not_pressed_results)
  with Cons.prems Cons.IH [of "app rt inp s"] show ?case by (simp add: reruns_def)
qed

text \<open>
  Claim C9. The results section, with its filtering, sorting and export, leaves the result set,
  the outside world and the log of requests as they are. So over any sequence of runs in which
  the button is not pressed, whatever the filter controls are set to in each of them, the result
  set that the script reads stays the same, and the stored value itself once it exists.
\<close>

theorem view_has_no_side_effects:
  "results (view rt inp s) = results s
   \<and> world (view rt inp s) = world s
   \<and> requests (view rt inp s) = requests s
   \<and> ((\<forall>inp \<in> set inps. \<not> in_button inp) \<longrightarrow>
         session_results (reruns rt inps s) = session_results s)
   \<and> ((\<forall>inp \<in> set inps. \<not> in_button inp) \<and> results s \<noteq> None \<longrightarrow>
         results (reruns rt inps s) = results s)"
  using reruns_not_pressed [of inps rt s] reruns_not_pressed_results [of inps s rt] by simp

theorem view_has_no_side_effects_witness:
  "\<not> in_button demo_inputs
   \<and> \<not> in_button (demo_inputs\<lparr>in_target_location := [], in_min_score := 70\<rparr>)
   \<and> results demo_state = Some [result_B]
   \<and> results (view demo_rt demo_inputs demo_state) = Some [result_B]
   \<and> results (reruns demo_rt
        [demo_inputs, demo_inputs\<lparr>in_target_location := [], in_min_score := 70\<rparr>] demo_state)
       = Some [result_B]"
proof -
  let ?inps = "[demo_inputs, demo_inputs\<lparr>in_target_location := [], in_min_score := 70\<rparr>]"
  have b: "\<forall>inp \<in> set ?inps. \<not> in_button inp" by (simp add: demo_inputs_def)
  have r: "results demo_state = Some [result_B]" by (simp add: demo_state_def)
  from view_has_no_side_effects [of demo_rt demo_inputs demo_state ?inps] b r
  show ?thesis by (simp add: demo_inputs_def)
qed

subsection \<open>Reads that cannot fail\<close>

text \<open>\<^verbatim>\<open>split\<close> never gives the empty list, so the index \<open>-1\<close> of the extension has an
  element to take.\<close>

lemma split_from_nonempty: "split_from sep piece cs \<noteq> []"
  by (induction cs arbitrary: piece) simp_all

lemma str_split_nonempty: "str_split sep s \<noteq> []"
  by (simp add: str_split_def split_from_nonempty)

lemma header_creates: "results (header s) \<noteq> None"
  by (simp add: header_def Let_def)

lemma evaluate_resumes_keeps_key:
  "results s \<noteq> None \<Longrightarrow> results (evaluate_resumes rt jd fs s) \<noteq> None"
  by (cases "jd \<noteq> [] \<and> fs \<noteq> []") (simp_all add: evaluate_resumes_valid evaluate_resumes_invalid)

lemma sidebar_keeps_key: "results s \<noteq> None \<Longrightarrow> results (sidebar rt inp s) \<noteq> None"
  by (simp add: sidebar_def Let_def evaluate_resumes_keeps_key del: not_None_eq)

text \<open>The results section, the only reader of the result set, runs on a state that has the
  key.\<close>

lemma view_reads_created_key: "results (sidebar rt inp (header s)) \<noteq> None"
  by (rule sidebar_keeps_key) (rule header_creates)

end
